theory Spec2Isabelle
  imports Complex_Main
begin

section \<open>The queue of tf2pickup: data model\<close>

text \<open>
  The development embeds the class \<^verbatim>\<open>QueueService\<close>, the second document of
  \<^verbatim>\<open>src/queue/controllers/queue-controller.ts\<close>. The shape of the models it
  imports (\<^verbatim>\<open>QueueSlot\<close>, \<^verbatim>\<open>QueueState\<close>, the queue configuration) is read off
  the object literals and the field accesses of the service:
  \<^item> a slot is \<^verbatim>\<open>{ id, gameClass, playerId?, playerReady }\<close>; the optional
    \<^verbatim>\<open>playerId\<close> is an option, \<^verbatim>\<open>delete s.playerId\<close> sets it to \<open>None\<close>;
  \<^item> the configuration has \<^verbatim>\<open>teamCount\<close>, \<^verbatim>\<open>classes\<close> (each with
    \<^verbatim>\<open>name\<close> and \<^verbatim>\<open>count\<close>), \<^verbatim>\<open>readyUpTimeout\<close> and \<^verbatim>\<open>maps\<close>;
  \<^item> the queue state is one of the strings \<^verbatim>\<open>waiting\<close>, \<^verbatim>\<open>ready\<close>,
    \<^verbatim>\<open>launching\<close>.
  JavaScript numbers are modelled as integers. Calls of the logger are left out,
  except where reading the message can throw.
\<close>

datatype QueueState = Waiting | Ready | Launching

record QueueSlot =
  id_slot :: int
  gameClass :: string
  playerId :: "string option"
  playerReady :: bool

record GameClass =
  name :: string
  count :: int

record QueueConfig =
  teamCount :: int
  classes :: "GameClass list"
  readyUpTimeout :: nat
  maps :: "string list"

text \<open>
  What the service does to the outside world is kept as data: the messages it emits on
  the websocket (\<^verbatim>\<open>ws.emit\<close>, or \<^verbatim>\<open>sender.broadcast.emit\<close> when a sender is
  given), the call of \<^verbatim>\<open>gameService.create\<close>, and the callbacks it registers with
  \<^verbatim>\<open>setTimeout\<close> or leaves behind an \<^verbatim>\<open>await\<close>.
\<close>

type_synonym sender = nat

datatype event =
    QueueSlotsReset "QueueSlot list"
  | QueueMapUpdated "string option"
  | QueueStateUpdate QueueState
  | QueueSlotUpdate QueueSlot "sender option"
  | GameCreate "QueueSlot list" QueueConfig "string option"

datatype task =
    UpdateStateTask
  | ReadyUpTimeoutTask nat
  | LaunchResumeTask
  | ResetTask
  | ReadyResumeTask nat nat "string option" "sender option"

text \<open>
  The fields of the service (\<open>slots\<close>, \<open>state\<close>, \<open>map_queue\<close> for \<^verbatim>\<open>map\<close>,
  \<open>timer\<close>), followed by the environment it writes to: \<open>emitted\<close> is the log of
  messages, \<open>pending\<close> the callbacks registered and not yet run, \<open>timerSeq\<close> the
  number of ready-up timers created so far, which serves as the handle of the next
  one. The service never calls \<^verbatim>\<open>clearTimeout\<close>: \<^verbatim>\<open>delete this.timer\<close>
  removes the field and leaves the registered callback where it is.

  Slots are objects, and a call of \<^verbatim>\<open>ready\<close> that waits for its lookup holds on
  to the slot it found. Within one array of slots an object is named by its
  position. \<^verbatim>\<open>resetSlots\<close> replaces the array by one of new objects; the arrays it
  replaced are kept in \<open>retired\<close>, oldest first, so that a slot is named by the
  number of arrays replaced when it was found and its position. The arrays in
  \<open>retired\<close> are no part of the queue any more.
\<close>

record QueueService =
  slots :: "QueueSlot list"
  state :: QueueState
  map_queue :: "string option"
  timer :: "nat option"
  emitted :: "event list"
  pending :: "task list"
  timerSeq :: nat
  retired :: "QueueSlot list list"

datatype error =
    NoSuchPlayer
  | PlayerInActiveGame
  | NoSuchSlot
  | SlotTaken
  | CannotUnready
  | QueueNotReady
  | PlayerNotQueued
  | TypeError

section \<open>The getters\<close>

text \<open>
  \<^verbatim>\<open>curr.playerId ? prev + 1 : prev\<close> tests the truthiness of an optional string:
  \<^verbatim>\<open>undefined\<close> and the empty string are falsy.
\<close>

fun truthy :: "string option \<Rightarrow> bool" where
  "truthy None = False"
| "truthy (Some s) = (s \<noteq> [])"

definition requiredPlayerCount :: "QueueConfig \<Rightarrow> int" where
  "requiredPlayerCount cfg =
     foldl (\<lambda>prev curr. prev + count curr) 0 (classes cfg) * teamCount cfg"

definition playerCount :: "QueueService \<Rightarrow> int" where
  "playerCount q =
     foldl (\<lambda>prev curr. if truthy (playerId curr) then prev + 1 else prev) 0 (slots q)"

definition readyPlayerCount :: "QueueService \<Rightarrow> int" where
  "readyPlayerCount q =
     foldl (\<lambda>prev curr. if playerReady curr then prev + 1 else prev) 0 (slots q)"

section \<open>Building the slots\<close>

definition freshSlot :: "int \<Rightarrow> string \<Rightarrow> QueueSlot" where
  "freshSlot i cls = \<lparr>id_slot = i, gameClass = cls, playerId = None, playerReady = False\<rparr>"

text \<open>
  The \<^verbatim>\<open>for\<close> loop of \<^verbatim>\<open>resetSlots\<close>: \<open>i\<close> runs up to \<open>n\<close>, each round
  pushes a slot with the id \<^verbatim>\<open>lastId++\<close>. The loop returns the slots pushed and
  the counter, which lives outside the callback of \<^verbatim>\<open>reduce\<close>.
\<close>

function pushSlots :: "int \<Rightarrow> int \<Rightarrow> string \<Rightarrow> QueueSlot list \<Rightarrow> int \<Rightarrow> QueueSlot list \<times> int" where
  "pushSlots i n cls tmpSlots lastId =
     (if i < n
      then pushSlots (i + 1) n cls (tmpSlots @ [freshSlot lastId cls]) (lastId + 1)
      else (tmpSlots, lastId))"
  by pat_completeness auto
termination
  by (relation "measure (\<lambda>(i, n, cls, tmpSlots, lastId). nat (n - i))") auto

text \<open>
  The callback of \<^verbatim>\<open>reduce\<close>, with the counter \<^verbatim>\<open>lastId\<close> threaded through
  next to the accumulator \<^verbatim>\<open>prev\<close>.
\<close>

fun slotsReducer :: "int \<Rightarrow> QueueSlot list \<times> int \<Rightarrow> GameClass \<Rightarrow> QueueSlot list \<times> int" where
  "slotsReducer tc (prev, lastId) cur =
     (case pushSlots 0 (count cur * tc) (name cur) [] lastId of
        (tmpSlots, lastId') \<Rightarrow> (prev @ tmpSlots, lastId'))"

definition buildSlots :: "QueueConfig \<Rightarrow> QueueSlot list \<times> int" where
  "buildSlots cfg = foldl (slotsReducer (teamCount cfg)) ([], 0) (classes cfg)"

definition resetSlots :: "QueueConfig \<Rightarrow> QueueService \<Rightarrow> QueueService" where
  "resetSlots cfg q = q\<lparr>slots := fst (buildSlots cfg), retired := retired q @ [slots q]\<rparr>"

text \<open>The configurations the specification calls valid.\<close>

definition validConfig :: "QueueConfig \<Rightarrow> bool" where
  "validConfig cfg \<longleftrightarrow>
     classes cfg \<noteq> [] \<and> list_all (\<lambda>c. 1 \<le> count c) (classes cfg) \<and> 1 \<le> teamCount cfg"

section \<open>Emitting and scheduling\<close>

definition emit :: "event \<Rightarrow> QueueService \<Rightarrow> QueueService" where
  "emit e q = q\<lparr>emitted := emitted q @ [e]\<rparr>"

text \<open>
  \<^verbatim>\<open>setTimeout(f, ...)\<close> and the continuation of an \<^verbatim>\<open>await\<close>: the callback
  joins the callbacks that wait to be run.
\<close>

definition schedule :: "task \<Rightarrow> QueueService \<Rightarrow> QueueService" where
  "schedule t q = q\<lparr>pending := pending q @ [t]\<rparr>"

text \<open>
  \<^verbatim>\<open>slotUpdated(slot, sender)\<close>: with a sender the update is broadcast to everyone
  but the sender, without one it goes to everyone; the event records which.
\<close>

definition slotUpdated :: "QueueSlot \<Rightarrow> sender option \<Rightarrow> QueueService \<Rightarrow> QueueService" where
  "slotUpdated slot sndr q = emit (QueueSlotUpdate slot sndr) q"

section \<open>The map\<close>

text \<open>\<^verbatim>\<open>xs[i]\<close> for an integer \<open>i\<close>: \<^verbatim>\<open>undefined\<close> out of range.\<close>

definition arrayGet :: "'a list \<Rightarrow> int \<Rightarrow> 'a option" where
  "arrayGet xs i = (if 0 \<le> i \<and> i < int (length xs) then Some (xs ! nat i) else None)"

text \<open>
  \<^verbatim>\<open>randomizeMap\<close>; \<open>rnd\<close> is the value \<^verbatim>\<open>Math.random()\<close> returns, a number
  \<open>0 \<le> rnd < 1\<close>, taken as a real.
\<close>

definition randomizeMap :: "QueueConfig \<Rightarrow> real \<Rightarrow> QueueService \<Rightarrow> QueueService" where
  "randomizeMap cfg rnd q =
     (let mapPool = filter (\<lambda>m. Some m \<noteq> map_queue q) (maps cfg)
      in q\<lparr>map_queue := arrayGet mapPool \<lfloor>rnd * real (length mapPool)\<rfloor>\<rparr>)"

section \<open>The state machine\<close>

text \<open>
  \<^verbatim>\<open>cleanupQueue\<close>: every slot is visited in order; a slot that is not ready loses
  its player, a ready one loses the flag; each visit emits the slot as it then is.
\<close>

definition cleanupSlot :: "QueueSlot \<Rightarrow> QueueSlot" where
  "cleanupSlot s = (if \<not> playerReady s then s\<lparr>playerId := None\<rparr> else s\<lparr>playerReady := False\<rparr>)"

definition cleanupQueue :: "QueueService \<Rightarrow> QueueService" where
  "cleanupQueue q =
     q\<lparr>slots := map cleanupSlot (slots q),
       emitted := emitted q @ map (\<lambda>s. QueueSlotUpdate (cleanupSlot s) None) (slots q)\<rparr>"

text \<open>
  \<^verbatim>\<open>launch\<close> runs up to its \<^verbatim>\<open>await\<close>: \<^verbatim>\<open>gameService.create\<close> is called with
  the slots, the configuration and the map; what follows the \<^verbatim>\<open>await\<close> is left as
  a callback, which the resolved promise runs later (\<open>LaunchResumeTask\<close>).
\<close>

definition launch :: "QueueConfig \<Rightarrow> QueueService \<Rightarrow> QueueService" where
  "launch cfg q = schedule LaunchResumeTask (emit (GameCreate (slots q) cfg (map_queue q)) q)"

definition onStateChange :: "QueueConfig \<Rightarrow> QueueState \<Rightarrow> QueueState \<Rightarrow> QueueService \<Rightarrow> QueueService" where
  "onStateChange cfg oldState newState q =
     (if oldState = Waiting \<and> newState = Ready
      then schedule (ReadyUpTimeoutTask (timerSeq q))
             (q\<lparr>timer := Some (timerSeq q), timerSeq := Suc (timerSeq q)\<rparr>)
      else if oldState = Ready \<and> newState = Launching
      then launch cfg (q\<lparr>timer := None\<rparr>)
      else if oldState = Launching \<and> newState = Waiting
      then q\<lparr>timer := None\<rparr>
      else if oldState = Ready \<and> newState = Waiting
      then cleanupQueue q
      else q)"

definition setState :: "QueueConfig \<Rightarrow> QueueState \<Rightarrow> QueueService \<Rightarrow> QueueService" where
  "setState cfg st q =
     (if st \<noteq> state q
      then emit (QueueStateUpdate st) ((onStateChange cfg (state q) st q)\<lparr>state := st\<rparr>)
      else q)"

definition updateState :: "QueueConfig \<Rightarrow> QueueService \<Rightarrow> QueueService" where
  "updateState cfg q =
     (case state q of
        Waiting \<Rightarrow>
          if playerCount q = requiredPlayerCount cfg then setState cfg Ready q else q
      | Ready \<Rightarrow>
          if playerCount q = 0 then setState cfg Waiting q
          else if readyPlayerCount q = requiredPlayerCount cfg then setState cfg Launching q
          else q
      | Launching \<Rightarrow> setState cfg Waiting q)"

definition readyUpTimeout_fired :: "QueueConfig \<Rightarrow> QueueService \<Rightarrow> QueueService" where
  "readyUpTimeout_fired cfg q =
     (if readyPlayerCount q = requiredPlayerCount cfg
      then setState cfg Launching q
      else setState cfg Waiting q)"

definition reset :: "QueueConfig \<Rightarrow> real \<Rightarrow> QueueService \<Rightarrow> QueueService" where
  "reset cfg rnd q =
     (let q1 = resetSlots cfg q;
          q2 = emit (QueueSlotsReset (slots q1)) q1;
          q3 = randomizeMap cfg rnd q2;
          q4 = emit (QueueMapUpdated (map_queue q3)) q3
      in updateState cfg q4)"

section \<open>The operations\<close>

text \<open>
  \<^verbatim>\<open>slots.find(p)\<close> returns the first slot that satisfies \<open>p\<close>, an object the
  caller then mutates; the model returns its position instead.
\<close>

fun findIndex :: "('a \<Rightarrow> bool) \<Rightarrow> 'a list \<Rightarrow> nat option" where
  "findIndex P [] = None"
| "findIndex P (x # xs) = (if P x then Some 0 else map_option Suc (findIndex P xs))"

text \<open>
  The \<^verbatim>\<open>forEach\<close> of \<^verbatim>\<open>join\<close>: the player is removed from every slot that
  holds them, and each such slot is emitted to everyone.
\<close>

definition vacate :: "QueueSlot \<Rightarrow> QueueSlot" where
  "vacate s = s\<lparr>playerId := None, playerReady := False\<rparr>"

definition removePlayer :: "string \<Rightarrow> QueueService \<Rightarrow> QueueService" where
  "removePlayer p q =
     q\<lparr>slots := map (\<lambda>s. if playerId s = Some p then vacate s else s) (slots q),
       emitted := emitted q @
         map (\<lambda>s. QueueSlotUpdate (vacate s) None) (filter (\<lambda>s. playerId s = Some p) (slots q))\<rparr>"

text \<open>
  \<^verbatim>\<open>join\<close>. The two awaited lookups come first and do not touch the queue; their
  results are parameters: \<open>player\<close> is what \<^verbatim>\<open>playerModel.findById\<close> resolves
  to (the player's name, or \<open>None\<close> for \<^verbatim>\<open>null\<close>), \<open>activeGame\<close> whether
  \<^verbatim>\<open>gameService.activeGameForPlayer\<close> finds a game. The rest runs without
  interruption. A thrown error leaves the function at once; the result pairs the
  outcome with the queue as the call leaves it.
\<close>

definition join ::
  "string option \<Rightarrow> bool \<Rightarrow> int \<Rightarrow> string \<Rightarrow> sender option \<Rightarrow> QueueService
     \<Rightarrow> (error + QueueSlot) \<times> QueueService" where
  "join player activeGame slotId p sndr q =
     (case player of
        None \<Rightarrow> (Inl NoSuchPlayer, q)
      | Some playerName \<Rightarrow>
          if activeGame then (Inl PlayerInActiveGame, q)
          else
            (case findIndex (\<lambda>s. id_slot s = slotId) (slots q) of
               None \<Rightarrow> (Inl NoSuchSlot, q)
             | Some i \<Rightarrow>
                 if truthy (playerId (slots q ! i)) then (Inl SlotTaken, q)
                 else
                   (let q1 = removePlayer p q;
                        slot = (slots q1 ! i)\<lparr>playerId := Some p\<rparr>;
                        slot' = (if state q1 = Ready then slot\<lparr>playerReady := True\<rparr> else slot);
                        q2 = q1\<lparr>slots := (slots q1)[i := slot']\<rparr>;
                        q3 = slotUpdated slot' sndr q2
                    in (Inr slot', schedule UpdateStateTask q3))))"

text \<open>\<^verbatim>\<open>leave\<close>; the result \<open>Inr None\<close> is the \<^verbatim>\<open>null\<close> it returns.\<close>

definition leave ::
  "string \<Rightarrow> sender option \<Rightarrow> QueueService \<Rightarrow> (error + QueueSlot option) \<times> QueueService" where
  "leave p sndr q =
     (case findIndex (\<lambda>s. playerId s = Some p) (slots q) of
        Some i \<Rightarrow>
          if playerReady (slots q ! i) \<and> (state q = Ready \<or> state q = Launching)
          then (Inl CannotUnready, q)
          else
            (let slot' = (slots q ! i)\<lparr>playerId := None\<rparr>;
                 q1 = q\<lparr>slots := (slots q)[i := slot']\<rparr>;
                 q2 = slotUpdated slot' sndr q1
             in (Inr (Some slot'), schedule UpdateStateTask q2))
      | None \<Rightarrow> (Inr None, q))"

text \<open>
  \<^verbatim>\<open>ready\<close>, up to its \<^verbatim>\<open>await\<close>. The state is checked and the slot of the
  player is looked for; both errors are thrown here. With a slot found, the lookup of
  the player is started and the rest of the function waits for it: it is left as a
  callback that knows the slot found (the number of arrays replaced so far and the
  position), what the lookup resolves to (\<open>player\<close>, as in \<^verbatim>\<open>join\<close>) and the
  sender. Other calls and callbacks can run before it.
\<close>

definition ready ::
  "string option \<Rightarrow> string \<Rightarrow> sender option \<Rightarrow> QueueService
     \<Rightarrow> (error + task) \<times> QueueService" where
  "ready player p sndr q =
     (if state q \<noteq> Ready then (Inl QueueNotReady, q)
      else
        (case findIndex (\<lambda>s. playerId s = Some p) (slots q) of
           Some i \<Rightarrow>
             (let resume = ReadyResumeTask (length (retired q)) i player sndr
              in (Inr resume, schedule resume q))
         | None \<Rightarrow> (Inl PlayerNotQueued, q)))"

text \<open>
  \<^verbatim>\<open>ready\<close>, after its \<^verbatim>\<open>await\<close>. The slot found earlier gets the flag, whoever
  holds it by now; when the array was replaced in between, the slot is one of a
  retired array. The flag is set before the log line reads \<^verbatim>\<open>player.name\<close>,
  which throws a \<^verbatim>\<open>TypeError\<close> when the lookup resolved to \<^verbatim>\<open>null\<close>. Otherwise
  the slot is emitted, \<^verbatim>\<open>updateState\<close> is deferred and the slot is what the call
  resolves to.
\<close>

definition readyResume ::
  "nat \<Rightarrow> nat \<Rightarrow> string option \<Rightarrow> sender option \<Rightarrow> QueueService
     \<Rightarrow> (error + QueueSlot) \<times> QueueService" where
  "readyResume gen i player sndr q =
     (let slot' = (if gen = length (retired q) then slots q ! i else retired q ! gen ! i)
                    \<lparr>playerReady := True\<rparr>;
          q1 = (if gen = length (retired q)
                then q\<lparr>slots := (slots q)[i := slot']\<rparr>
                else q\<lparr>retired := (retired q)[gen := (retired q ! gen)[i := slot']]\<rparr>)
      in (case player of
            None \<Rightarrow> (Inl TypeError, q1)
          | Some playerName \<Rightarrow>
              (Inr slot', schedule UpdateStateTask (slotUpdated slot' sndr q1))))"

section \<open>Runs of the service\<close>

text \<open>
  The constructor: the field initialisers, then \<^verbatim>\<open>reset()\<close>.
\<close>

definition fieldInitialisers :: QueueService where
  "fieldInitialisers =
     \<lparr>slots = [], state = Waiting, map_queue = None, timer = None,
      emitted = [], pending = [], timerSeq = 0, retired = []\<rparr>"

definition newQueueService :: "QueueConfig \<Rightarrow> real \<Rightarrow> QueueService" where
  "newQueueService cfg rnd = reset cfg rnd fieldInitialisers"

text \<open>
  A callback that is run: the deferred \<^verbatim>\<open>updateState\<close>, the ready-up timer, the
  rest of \<^verbatim>\<open>launch\<close> after its \<^verbatim>\<open>await\<close> (which defers \<^verbatim>\<open>reset\<close>), the
  deferred \<^verbatim>\<open>reset\<close>, which draws a random number, and the rest of
  \<^verbatim>\<open>ready\<close> after its \<^verbatim>\<open>await\<close>.
\<close>

fun runTask :: "QueueConfig \<Rightarrow> real \<Rightarrow> task \<Rightarrow> QueueService \<Rightarrow> QueueService" where
  "runTask cfg rnd UpdateStateTask q = updateState cfg q"
| "runTask cfg rnd (ReadyUpTimeoutTask h) q = readyUpTimeout_fired cfg q"
| "runTask cfg rnd LaunchResumeTask q = schedule ResetTask q"
| "runTask cfg rnd ResetTask q = reset cfg rnd q"
| "runTask cfg rnd (ReadyResumeTask gen i player sndr) q = snd (readyResume gen i player sndr q)"

text \<open>
  What can happen to a running service: a call of one of the public operations, or
  one of the pending callbacks is run (\<open>RunPending i\<close> runs the one at position
  \<open>i\<close> and removes it from the waiting ones).
\<close>

datatype action =
    JoinCall "string option" bool int string "sender option"
  | LeaveCall string "sender option"
  | ReadyCall "string option" string "sender option"
  | ResetCall real
  | RunPending nat real

fun step :: "QueueConfig \<Rightarrow> QueueService \<Rightarrow> action \<Rightarrow> QueueService" where
  "step cfg q (JoinCall player activeGame slotId p sndr) =
     snd (join player activeGame slotId p sndr q)"
| "step cfg q (LeaveCall p sndr) = snd (leave p sndr q)"
| "step cfg q (ReadyCall player p sndr) = snd (ready player p sndr q)"
| "step cfg q (ResetCall rnd) = reset cfg rnd q"
| "step cfg q (RunPending i rnd) =
     (if i < length (pending q)
      then runTask cfg rnd (pending q ! i)
             (q\<lparr>pending := take i (pending q) @ drop (Suc i) (pending q)\<rparr>)
      else q)"

definition run :: "QueueConfig \<Rightarrow> real \<Rightarrow> action list \<Rightarrow> QueueService" where
  "run cfg rnd acts = foldl (step cfg) (newQueueService cfg rnd) acts"

text \<open>The number of slots a class contributes.\<close>

definition classSize :: "int \<Rightarrow> GameClass \<Rightarrow> nat" where
  "classSize tc c = nat (count c * tc)"

text \<open>A slot is occupied when its \<^verbatim>\<open>playerId\<close> is truthy.\<close>

definition occupied :: "QueueSlot \<Rightarrow> bool" where
  "occupied s = truthy (playerId s)"

text \<open>
  No player holds two slots: two positions whose \<^verbatim>\<open>playerId\<close> is the same player
  are the same position.
\<close>

definition uniquePlayers :: "QueueSlot list \<Rightarrow> bool" where
  "uniquePlayers ss \<longleftrightarrow>
     (\<forall>i<length ss. \<forall>j<length ss.
        playerId (ss ! i) \<noteq> None \<and> playerId (ss ! i) = playerId (ss ! j) \<longrightarrow> i = j)"

text \<open>The configuration of the test queue, with two maps, and one with a single map.\<close>

definition configTest :: QueueConfig where
  "configTest =
     \<lparr>teamCount = 2, classes = [\<lparr>name = ''soldier'', count = 1\<rparr>],
      readyUpTimeout = 10000, maps = [''cp_process'', ''cp_badlands'']\<rparr>"

definition configOneMap :: QueueConfig where
  "configOneMap = configTest\<lparr>maps := [''cp_process'']\<rparr>"

section \<open>Runs of the test queue\<close>

text \<open>
  Runs of the service on the test configuration, each a list of calls and of
  callbacks that are run in the order Node would run them. In \<open>scenarioE\<close> player
  \<open>p1\<close> joins slot 0 and the deferred \<^verbatim>\<open>updateState\<close> runs; \<open>scenarioFull\<close>
  adds \<open>p2\<close> in slot 1 and \<open>scenarioA\<close> the \<^verbatim>\<open>updateState\<close> that makes the
  queue ready. From there \<open>p1\<close> leaves (\<open>scenarioLeft\<close>), or \<open>p1\<close> confirms
  (\<open>scenarioConfirmed\<close>: the call, the rest of the call once the lookup has
  resolved, the deferred \<^verbatim>\<open>updateState\<close>) and then \<open>p2\<close> leaves
  (\<open>scenarioGap\<close>) or confirms as well (\<open>scenarioAllConfirmed\<close>), which launches
  the game at the next \<^verbatim>\<open>updateState\<close> (\<open>scenarioLaunch\<close>). In
  \<open>scenarioRefill\<close> the game is created, the queue is reset, and two other players
  fill it again.
\<close>

definition scenarioE :: "action list" where
  "scenarioE = [JoinCall (Some ''alice'') False 0 ''p1'' (Some 1), RunPending 0 0]"

definition scenarioFull :: "action list" where
  "scenarioFull = scenarioE @ [JoinCall (Some ''bob'') False 1 ''p2'' (Some 2)]"

definition scenarioA :: "action list" where
  "scenarioA = scenarioFull @ [RunPending 0 0]"

definition scenarioLeft :: "action list" where
  "scenarioLeft = scenarioA @ [LeaveCall ''p1'' (Some 1), RunPending 1 0]"

definition scenarioConfirmed :: "action list" where
  "scenarioConfirmed = scenarioA @
     [ReadyCall (Some ''alice'') ''p1'' (Some 1), RunPending 1 0, RunPending 1 0]"

definition scenarioGap :: "action list" where
  "scenarioGap = scenarioConfirmed @ [LeaveCall ''p2'' (Some 2)]"

definition scenarioAllConfirmed :: "action list" where
  "scenarioAllConfirmed = scenarioConfirmed @
     [ReadyCall (Some ''bob'') ''p2'' (Some 2), RunPending 1 0]"

definition scenarioLaunch :: "action list" where
  "scenarioLaunch = scenarioAllConfirmed @ [RunPending 1 0]"

definition scenarioRefill :: "action list" where
  "scenarioRefill = scenarioLaunch @
     [RunPending 1 0, RunPending 1 0,
      JoinCall (Some ''carol'') False 0 ''p3'' (Some 3), RunPending 1 0,
      JoinCall (Some ''dave'') False 1 ''p4'' (Some 4), RunPending 1 0]"

text \<open>
  A call of \<^verbatim>\<open>ready\<close> that is overtaken: the queue is ready, \<open>p1\<close> calls
  \<^verbatim>\<open>ready\<close> and, while the lookup is awaited, leaves; the deferred
  \<^verbatim>\<open>updateState\<close> of the leave runs, then the rest of \<^verbatim>\<open>ready\<close> and its
  \<^verbatim>\<open>updateState\<close>. After that \<open>p2\<close> confirms.
\<close>

definition scenarioOvertaken :: "action list" where
  "scenarioOvertaken = scenarioA @
     [ReadyCall (Some ''alice'') ''p1'' (Some 1), LeaveCall ''p1'' (Some 1),
      RunPending 2 0, RunPending 1 0, RunPending 1 0,
      ReadyCall (Some ''bob'') ''p2'' (Some 2), RunPending 1 0, RunPending 1 0]"

text \<open>A slot of the test queue.\<close>

definition soldierSlot :: "int \<Rightarrow> string option \<Rightarrow> bool \<Rightarrow> QueueSlot" where
  "soldierSlot i p r = \<lparr>id_slot = i, gameClass = ''soldier'', playerId = p, playerReady = r\<rparr>"

section \<open>Properties of the slot layout\<close>

declare pushSlots.simps [simp del]

lemma pushSlots_closed:
  "pushSlots i n cls tmpSlots lastId =
     (tmpSlots @ map (\<lambda>k. freshSlot (lastId + int k) cls) [0..<nat (n - i)],
      lastId + int (nat (n - i)))"
proof (induction i n cls tmpSlots lastId rule: pushSlots.induct)
  case (1 i n cls tmpSlots lastId)
  show ?case
  proof (cases "i < n")
    case True
    then have step: "nat (n - i) = Suc (nat (n - (i + 1)))"
      by simp
    have shift: "map (\<lambda>k. freshSlot (lastId + int k) cls) [0..<Suc m] =
        freshSlot lastId cls # map (\<lambda>k. freshSlot (lastId + 1 + int k) cls) [0..<m]" for m
      by (simp add: upt_conv_Cons map_Suc_upt [symmetric] add.assoc del: upt_Suc)
    show ?thesis
      using True "1.IH" [OF True]
      by (subst pushSlots.simps) (simp add: step shift del: upt_Suc)
  next
    case False
    then show ?thesis
      by (subst pushSlots.simps) simp
  qed
qed

lemma slotsReducer_closed:
  "slotsReducer tc (prev, l) c =
     (prev @ map (\<lambda>k. freshSlot (l + int k) (name c)) [0..<classSize tc c],
      l + int (classSize tc c))"
  by (simp add: pushSlots_closed classSize_def del: int_nat_eq)

declare slotsReducer.simps [simp del]

lemma upt_split_add: "map f [0..<a + b] = map f [0..<a] @ map (\<lambda>k. f (a + k)) [0..<b]"
proof -
  have "[0..<a + b] = [0..<a] @ [a..<a + b]"
    using upt_add_eq_append [of 0 a b] by simp
  moreover have "[a..<a + b] = map (\<lambda>k. a + k) [0..<b]"
    by (induction b) simp_all
  ultimately show ?thesis
    by (simp add: comp_def)
qed

lemma foldl_slotsReducer_fresh:
  "list_all (\<lambda>s. playerId s = None \<and> \<not> playerReady s) prev \<Longrightarrow>
   list_all (\<lambda>s. playerId s = None \<and> \<not> playerReady s) (fst (foldl (slotsReducer tc) (prev, l) cs))"
proof (induction cs arbitrary: prev l)
  case Nil
  then show ?case by simp
next
  case (Cons c cs)
  have "list_all (\<lambda>s. playerId s = None \<and> \<not> playerReady s)
          (prev @ map (\<lambda>k. freshSlot (l + int k) (name c)) [0..<classSize tc c])"
    using Cons.prems by (auto simp add: freshSlot_def list_all_iff)
  from Cons.IH [OF this] show ?case
    by (simp add: slotsReducer_closed)
qed

lemma foldl_slotsReducer_classes:
  "map gameClass (fst (foldl (slotsReducer tc) (prev, l) cs)) =
     map gameClass prev @ concat (map (\<lambda>c. replicate (classSize tc c) (name c)) cs)"
  by (induction cs arbitrary: prev l)
     (simp_all add: slotsReducer_closed freshSlot_def comp_def map_replicate_const)

lemma foldl_slotsReducer_ids:
  "map id_slot (fst (foldl (slotsReducer tc) (prev, l) cs)) =
     map id_slot prev @ map (\<lambda>k. l + int k) [0..<sum_list (map (classSize tc) cs)]"
  by (induction cs arbitrary: prev l)
     (simp_all add: slotsReducer_closed freshSlot_def comp_def upt_split_add add.assoc del: upt_Suc)


lemma foldl_add_count:
  "foldl (\<lambda>prev curr. prev + count curr) a cs = a + sum_list (map count cs)"
  by (induction cs arbitrary: a) simp_all

lemma requiredPlayerCount_sum:
  "requiredPlayerCount cfg = sum_list (map count (classes cfg)) * teamCount cfg"
  by (simp add: requiredPlayerCount_def foldl_add_count)

lemma classSize_sum:
  "list_all (\<lambda>c. 0 \<le> count c * tc) cs \<Longrightarrow>
   int (sum_list (map (classSize tc) cs)) = sum_list (map count cs) * tc"
  by (induction cs) (simp_all add: classSize_def distrib_right)

lemma validConfig_nonneg:
  "validConfig cfg \<Longrightarrow> list_all (\<lambda>c. 0 \<le> count c * teamCount cfg) (classes cfg)"
  by (auto simp add: validConfig_def list_all_iff)

lemma length_buildSlots:
  "length (fst (buildSlots cfg)) = sum_list (map (classSize (teamCount cfg)) (classes cfg))"
  using foldl_slotsReducer_ids [of "teamCount cfg" "[]" 0 "classes cfg", THEN arg_cong, of length]
  by (simp add: buildSlots_def)

lemma length_buildSlots_valid:
  "validConfig cfg \<Longrightarrow> int (length (fst (buildSlots cfg))) = requiredPlayerCount cfg"
  by (simp add: length_buildSlots classSize_sum validConfig_nonneg requiredPlayerCount_sum)

text \<open>
  Claim C8. For a valid configuration (classes not empty, every count at least 1,
  \<open>teamCount\<close> at least 1) \<^verbatim>\<open>resetSlots\<close> goes through the classes in their
  order and emits \<open>count * teamCount\<close> slots of each class; the ids are
  \<open>0, 1, \<dots>, N - 1\<close> in this order, where \<open>N = teamCount * \<Sum> count\<close> is the
  number of slots. Every slot starts without a player and not ready.
\<close>

theorem resetSlots_layout:
  assumes "validConfig cfg"
  shows "map gameClass (slots (resetSlots cfg q)) =
           concat (map (\<lambda>c. replicate (nat (count c * teamCount cfg)) (name c)) (classes cfg))
       \<and> map id_slot (slots (resetSlots cfg q)) = map int [0..<length (slots (resetSlots cfg q))]
       \<and> int (length (slots (resetSlots cfg q))) = teamCount cfg * sum_list (map count (classes cfg))
       \<and> list_all (\<lambda>s. playerId s = None \<and> \<not> playerReady s) (slots (resetSlots cfg q))"
proof -
  have cls: "map gameClass (fst (buildSlots cfg)) =
      concat (map (\<lambda>c. replicate (nat (count c * teamCount cfg)) (name c)) (classes cfg))"
    using foldl_slotsReducer_classes [of "teamCount cfg" "[]" 0 "classes cfg"]
    by (simp add: buildSlots_def classSize_def)
  have ids: "map id_slot (fst (buildSlots cfg)) = map int [0..<length (fst (buildSlots cfg))]"
    using foldl_slotsReducer_ids [of "teamCount cfg" "[]" 0 "classes cfg"]
    by (simp only: length_buildSlots) (simp add: buildSlots_def)
  have len: "int (length (fst (buildSlots cfg))) = teamCount cfg * sum_list (map count (classes cfg))"
    using length_buildSlots_valid [OF assms] by (simp add: requiredPlayerCount_sum mult.commute)
  have fresh: "list_all (\<lambda>s. playerId s = None \<and> \<not> playerReady s) (fst (buildSlots cfg))"
    using foldl_slotsReducer_fresh [of "[]" "teamCount cfg" 0 "classes cfg"]
    by (simp add: buildSlots_def)
  show ?thesis
    using cls ids len fresh by (simp add: resetSlots_def)
qed


text \<open>The layout of the test configuration: two soldier slots, ids 0 and 1.\<close>

lemma buildSlots_configTest:
  "fst (buildSlots configTest) = [freshSlot 0 ''soldier'', freshSlot 1 ''soldier'']"
  by (simp add: buildSlots_def configTest_def slotsReducer_closed classSize_def upt_conv_Cons)

theorem resetSlots_layout_witness:
  "validConfig configTest
   \<and> map gameClass (slots (resetSlots configTest fieldInitialisers)) = [''soldier'', ''soldier'']
   \<and> map id_slot (slots (resetSlots configTest fieldInitialisers)) = [0, 1]
   \<and> length (slots (resetSlots configTest fieldInitialisers)) = 2"
proof -
  have v: "validConfig configTest"
    by (simp add: validConfig_def configTest_def)
  show ?thesis
    using v resetSlots_layout [OF v, of fieldInitialisers]
    by (simp add: resetSlots_def buildSlots_configTest freshSlot_def)
qed

section \<open>The operations: finding a slot, failing calls\<close>

lemma findIndex_None: "findIndex P xs = None \<longleftrightarrow> (\<forall>x\<in>set xs. \<not> P x)"
  by (induction xs) auto

lemma findIndex_Some:
  "findIndex P xs = Some i \<Longrightarrow> i < length xs \<and> P (xs ! i) \<and> (\<forall>j<i. \<not> P (xs ! j))"
proof (induction xs arbitrary: i)
  case Nil
  then show ?case by simp
next
  case (Cons x xs)
  show ?case
  proof (cases "P x")
    case True
    with Cons.prems show ?thesis by simp
  next
    case False
    with Cons.prems obtain k where k: "findIndex P xs = Some k" "i = Suc k"
      by auto
    from Cons.IH [OF k(1)] False k(2) show ?thesis
      by (auto simp add: nth_Cons split: nat.splits)
  qed
qed

text \<open>
  Claim C2. A call of \<^verbatim>\<open>join\<close>, \<^verbatim>\<open>leave\<close> or \<^verbatim>\<open>ready\<close> that fails with
  one of the errors \<open>NoSuchSlot\<close>, \<open>SlotTaken\<close>, \<open>CannotUnready\<close>,
  \<open>QueueNotReady\<close>, \<open>PlayerNotQueued\<close> leaves the queue (slots, state, map, and
  everything else the service holds) exactly as it was before the call. Both errors
  of \<^verbatim>\<open>ready\<close> are thrown before its \<^verbatim>\<open>await\<close>.
\<close>

theorem failed_call_keeps_state:
  "(fst (join player activeGame slotId p sndr q) = Inl e
      \<and> e \<in> {NoSuchSlot, SlotTaken, CannotUnready, QueueNotReady, PlayerNotQueued}
      \<longrightarrow> snd (join player activeGame slotId p sndr q) = q)
   \<and> (fst (leave p sndr q) = Inl e
      \<and> e \<in> {NoSuchSlot, SlotTaken, CannotUnready, QueueNotReady, PlayerNotQueued}
      \<longrightarrow> snd (leave p sndr q) = q)
   \<and> (fst (ready player p sndr q) = Inl e
      \<and> e \<in> {NoSuchSlot, SlotTaken, CannotUnready, QueueNotReady, PlayerNotQueued}
      \<longrightarrow> snd (ready player p sndr q) = q)"
proof (intro conjI impI)
  assume "fst (join player activeGame slotId p sndr q) = Inl e
      \<and> e \<in> {NoSuchSlot, SlotTaken, CannotUnready, QueueNotReady, PlayerNotQueued}"
  then show "snd (join player activeGame slotId p sndr q) = q"
    by (auto simp add: join_def Let_def split: option.splits if_splits)
next
  assume "fst (leave p sndr q) = Inl e
      \<and> e \<in> {NoSuchSlot, SlotTaken, CannotUnready, QueueNotReady, PlayerNotQueued}"
  then show "snd (leave p sndr q) = q"
    by (auto simp add: leave_def Let_def split: option.splits if_splits)
next
  assume "fst (ready player p sndr q) = Inl e
      \<and> e \<in> {NoSuchSlot, SlotTaken, CannotUnready, QueueNotReady, PlayerNotQueued}"
  then show "snd (ready player p sndr q) = q"
    by (auto simp add: ready_def Let_def split: option.splits if_splits)
qed

lemma leave_absent:
  "\<forall>s\<in>set (slots q). playerId s \<noteq> Some p \<Longrightarrow> leave p sndr q = (Inr None, q)"
proof -
  assume "\<forall>s\<in>set (slots q). playerId s \<noteq> Some p"
  then have "findIndex (\<lambda>s. playerId s = Some p) (slots q) = None"
    by (simp add: findIndex_None)
  then show ?thesis
    by (simp add: leave_def)
qed

section \<open>No player holds two slots\<close>

lemma uniquePlayers_shrink:
  assumes "uniquePlayers ss" "length ss' = length ss"
    and "\<forall>i<length ss. playerId (ss' ! i) = None \<or> playerId (ss' ! i) = playerId (ss ! i)"
  shows "uniquePlayers ss'"
  unfolding uniquePlayers_def
proof (intro allI impI)
  fix i j
  assume i: "i < length ss'" and j: "j < length ss'"
    and eq: "playerId (ss' ! i) \<noteq> None \<and> playerId (ss' ! i) = playerId (ss' ! j)"
  from assms(2,3) i j eq have "playerId (ss' ! i) = playerId (ss ! i)" "playerId (ss' ! j) = playerId (ss ! j)"
    by metis+
  with assms(1,2) i j eq show "i = j"
    unfolding uniquePlayers_def by metis
qed

lemma uniquePlayers_fresh:
  "list_all (\<lambda>s. playerId s = None \<and> \<not> playerReady s) ss \<Longrightarrow> uniquePlayers ss"
  by (simp add: uniquePlayers_def list_all_length)

lemma uniquePlayers_join:
  assumes "uniquePlayers ss" "playerId s' = Some p"
  shows "uniquePlayers ((map (\<lambda>s. if playerId s = Some p then vacate s else s) ss)[i := s'])"
  unfolding uniquePlayers_def
proof (intro allI impI)
  let ?ss1 = "map (\<lambda>s. if playerId s = Some p then vacate s else s) ss"
  fix a b
  assume a: "a < length (?ss1[i := s'])" and b: "b < length (?ss1[i := s'])"
    and eq: "playerId (?ss1[i := s'] ! a) \<noteq> None \<and> playerId (?ss1[i := s'] ! a) = playerId (?ss1[i := s'] ! b)"
  have nop: "playerId (?ss1 ! k) \<noteq> Some p" if "k < length ss" for k
    using that by (simp add: vacate_def)
  have keep: "playerId (?ss1 ! k) = None \<or> playerId (?ss1 ! k) = playerId (ss ! k)" if "k < length ss" for k
    using that by (simp add: vacate_def)
  show "a = b"
  proof (cases "a = i")
    case True
    show ?thesis
    proof (cases "b = i")
      case True
      with \<open>a = i\<close> show ?thesis by simp
    next
      case False
      with True a b eq assms(2) nop [of b] show ?thesis
        by simp
    qed
  next
    case False
    show ?thesis
    proof (cases "b = i")
      case True
      with False a b eq assms(2) nop [of a] show ?thesis
        by simp
    next
      case bi: False
      from a b have la: "a < length ss" and lb: "b < length ss"
        by simp_all
      have "?ss1[i := s'] ! a = ?ss1 ! a" "?ss1[i := s'] ! b = ?ss1 ! b"
        using False bi by simp_all
      with eq have e: "playerId (?ss1 ! a) \<noteq> None" "playerId (?ss1 ! a) = playerId (?ss1 ! b)"
        by metis+
      from e keep [OF la] keep [OF lb] have "playerId (ss ! a) \<noteq> None \<and> playerId (ss ! a) = playerId (ss ! b)"
        by metis
      with assms(1) la lb show ?thesis
        unfolding uniquePlayers_def by blast
    qed
  qed
qed

lemma cleanup_fresh:
  "list_all (\<lambda>s. playerId s = None \<and> \<not> playerReady s) ss \<Longrightarrow> map cleanupSlot ss = ss"
  by (induction ss) (simp_all add: cleanupSlot_def)

subsection \<open>What each function does to the slots and the state\<close>

lemma slots_emit [simp]: "slots (emit e q) = slots q"
  and state_emit [simp]: "state (emit e q) = state q"
  and pending_emit [simp]: "pending (emit e q) = pending q"
  and timer_emit [simp]: "timer (emit e q) = timer q"
  and map_emit [simp]: "map_queue (emit e q) = map_queue q"
  and emitted_emit [simp]: "emitted (emit e q) = emitted q @ [e]"
  by (simp_all add: emit_def)

lemma slots_schedule [simp]: "slots (schedule t q) = slots q"
  and state_schedule [simp]: "state (schedule t q) = state q"
  and emitted_schedule [simp]: "emitted (schedule t q) = emitted q"
  and timer_schedule [simp]: "timer (schedule t q) = timer q"
  and map_schedule [simp]: "map_queue (schedule t q) = map_queue q"
  and pending_schedule [simp]: "pending (schedule t q) = pending q @ [t]"
  by (simp_all add: schedule_def)

lemma slots_setState:
  "slots (setState cfg st q) =
     (if state q = Ready \<and> st = Waiting then map cleanupSlot (slots q) else slots q)"
  by (cases st; cases "state q")
     (simp_all add: setState_def onStateChange_def cleanupQueue_def launch_def)

lemma state_setState [simp]: "state (setState cfg st q) = st"
  by (cases st; cases "state q")
     (simp_all add: setState_def onStateChange_def cleanupQueue_def launch_def)

lemma slots_updateState:
  "slots (updateState cfg q) = slots q \<or> slots (updateState cfg q) = map cleanupSlot (slots q)"
  by (cases "state q") (simp_all add: updateState_def slots_setState)

lemma slots_readyUpTimeout:
  "slots (readyUpTimeout_fired cfg q) = slots q
   \<or> slots (readyUpTimeout_fired cfg q) = map cleanupSlot (slots q)"
  by (simp add: readyUpTimeout_fired_def slots_setState)

lemma slots_reset: "slots (reset cfg rnd q) = fst (buildSlots cfg)"
proof -
  let ?q4 = "emit (QueueMapUpdated (map_queue (randomizeMap cfg rnd (emit (QueueSlotsReset (slots (resetSlots cfg q))) (resetSlots cfg q)))))
               (randomizeMap cfg rnd (emit (QueueSlotsReset (slots (resetSlots cfg q))) (resetSlots cfg q)))"
  have s4: "slots ?q4 = fst (buildSlots cfg)"
    by (simp add: randomizeMap_def resetSlots_def Let_def)
  have fresh: "list_all (\<lambda>s. playerId s = None \<and> \<not> playerReady s) (fst (buildSlots cfg))"
    using foldl_slotsReducer_fresh [of "[]" "teamCount cfg" 0 "classes cfg"]
    by (simp add: buildSlots_def)
  have "reset cfg rnd q = updateState cfg ?q4"
    by (simp add: reset_def Let_def)
  with slots_updateState [of cfg ?q4] s4 cleanup_fresh [OF fresh] show ?thesis
    by auto
qed

lemma slots_join_cases:
  "slots (snd (join player activeGame slotId p sndr q)) = slots q
   \<or> (\<exists>i s'. playerId s' = Some p \<and>
        slots (snd (join player activeGame slotId p sndr q)) =
          (map (\<lambda>s. if playerId s = Some p then vacate s else s) (slots q))[i := s'])"
proof (cases "\<exists>i n. player = Some n \<and> \<not> activeGame
    \<and> findIndex (\<lambda>s. id_slot s = slotId) (slots q) = Some i \<and> \<not> truthy (playerId (slots q ! i))")
  case True
  then obtain i n where h: "player = Some n" "\<not> activeGame"
    "findIndex (\<lambda>s. id_slot s = slotId) (slots q) = Some i" "\<not> truthy (playerId (slots q ! i))"
    by blast
  let ?ss1 = "map (\<lambda>s. if playerId s = Some p then vacate s else s) (slots q)"
  let ?s' = "if state q = Ready then (?ss1 ! i)\<lparr>playerId := Some p, playerReady := True\<rparr>
             else (?ss1 ! i)\<lparr>playerId := Some p\<rparr>"
  have "slots (snd (join player activeGame slotId p sndr q)) = ?ss1[i := ?s']"
    using h by (simp add: join_def Let_def removePlayer_def slotUpdated_def)
  moreover have "playerId ?s' = Some p"
    by simp
  ultimately show ?thesis
    by blast
next
  case False
  then have "snd (join player activeGame slotId p sndr q) = q"
    by (auto simp add: join_def split: option.splits)
  then show ?thesis
    by simp
qed

lemma slots_leave_cases:
  "slots (snd (leave p sndr q)) = slots q
   \<or> (\<exists>i<length (slots q). slots (snd (leave p sndr q)) = (slots q)[i := (slots q ! i)\<lparr>playerId := None\<rparr>])"
  by (auto simp add: leave_def Let_def slotUpdated_def split: option.splits dest: findIndex_Some)

lemma slots_ready [simp]: "slots (snd (ready player p sndr q)) = slots q"
  by (simp add: ready_def Let_def split: option.splits)

lemma slots_readyResume_cases:
  "slots (snd (readyResume gen i player sndr q)) = slots q
   \<or> slots (snd (readyResume gen i player sndr q)) = (slots q)[i := (slots q ! i)\<lparr>playerReady := True\<rparr>]"
  by (cases player) (simp_all add: readyResume_def Let_def slotUpdated_def)

lemma uniquePlayers_cleanup: "uniquePlayers ss \<Longrightarrow> uniquePlayers (map cleanupSlot ss)"
  by (rule uniquePlayers_shrink [of ss]) (simp_all add: cleanupSlot_def)

lemma uniquePlayers_step: "uniquePlayers (slots q) \<Longrightarrow> uniquePlayers (slots (step cfg q a))"
proof (cases a)
  case (JoinCall player activeGame slotId p sndr)
  assume u: "uniquePlayers (slots q)"
  from slots_join_cases [of player activeGame slotId p sndr q] u JoinCall show ?thesis
    by (auto simp add: uniquePlayers_join)
next
  case (LeaveCall p sndr)
  assume u: "uniquePlayers (slots q)"
  have "uniquePlayers ((slots q)[i := (slots q ! i)\<lparr>playerId := None\<rparr>])" for i
  proof (rule uniquePlayers_shrink [OF u])
    show "\<forall>k<length (slots q). playerId ((slots q)[i := (slots q ! i)\<lparr>playerId := None\<rparr>] ! k) = None
        \<or> playerId ((slots q)[i := (slots q ! i)\<lparr>playerId := None\<rparr>] ! k) = playerId (slots q ! k)"
    proof (intro allI impI)
      fix k
      assume "k < length (slots q)"
      then show "playerId ((slots q)[i := (slots q ! i)\<lparr>playerId := None\<rparr>] ! k) = None
        \<or> playerId ((slots q)[i := (slots q ! i)\<lparr>playerId := None\<rparr>] ! k) = playerId (slots q ! k)"
        by (cases "k = i") simp_all
    qed
  qed simp
  with slots_leave_cases [of p sndr q] u LeaveCall show ?thesis
    by auto
next
  case (ReadyCall player p sndr)
  assume "uniquePlayers (slots q)"
  with ReadyCall show ?thesis
    by simp
next
  case (ResetCall rnd)
  have "list_all (\<lambda>s. playerId s = None \<and> \<not> playerReady s) (fst (buildSlots cfg))"
    using foldl_slotsReducer_fresh [of "[]" "teamCount cfg" 0 "classes cfg"]
    by (simp add: buildSlots_def)
  with ResetCall show ?thesis
    by (simp add: slots_reset uniquePlayers_fresh)
next
  case (RunPending i rnd)
  assume u: "uniquePlayers (slots q)"
  let ?q = "q\<lparr>pending := take i (pending q) @ drop (Suc i) (pending q)\<rparr>"
  have fresh: "list_all (\<lambda>s. playerId s = None \<and> \<not> playerReady s) (fst (buildSlots cfg))"
    using foldl_slotsReducer_fresh [of "[]" "teamCount cfg" 0 "classes cfg"]
    by (simp add: buildSlots_def)
  have "uniquePlayers (slots (runTask cfg rnd t ?q))" for t
  proof (cases t)
    case UpdateStateTask
    with slots_updateState [of cfg ?q] u show ?thesis
      by (auto simp add: uniquePlayers_cleanup)
  next
    case (ReadyUpTimeoutTask h)
    with slots_readyUpTimeout [of cfg ?q] u show ?thesis
      by (auto simp add: uniquePlayers_cleanup)
  next
    case LaunchResumeTask
    with u show ?thesis by simp
  next
    case ResetTask
    with fresh show ?thesis
      by (simp add: slots_reset uniquePlayers_fresh)
  next
    case (ReadyResumeTask gen k player sndr)
    have "uniquePlayers ((slots q)[k := (slots q ! k)\<lparr>playerReady := True\<rparr>])"
    proof (rule uniquePlayers_shrink [OF u])
      show "\<forall>n<length (slots q). playerId ((slots q)[k := (slots q ! k)\<lparr>playerReady := True\<rparr>] ! n) = None
          \<or> playerId ((slots q)[k := (slots q ! k)\<lparr>playerReady := True\<rparr>] ! n) = playerId (slots q ! n)"
      proof (intro allI impI)
        fix n
        assume "n < length (slots q)"
        then show "playerId ((slots q)[k := (slots q ! k)\<lparr>playerReady := True\<rparr>] ! n) = None
          \<or> playerId ((slots q)[k := (slots q ! k)\<lparr>playerReady := True\<rparr>] ! n) = playerId (slots q ! n)"
          by (cases "n = k") simp_all
      qed
    qed simp
    with slots_readyResume_cases [of gen k player sndr ?q] u ReadyResumeTask show ?thesis
      by auto
  qed
  with u RunPending show ?thesis
    by simp
qed

lemma run_snoc: "run cfg rnd (acts @ [a]) = step cfg (run cfg rnd acts) a"
  by (simp add: run_def)

lemma uniquePlayers_run: "uniquePlayers (slots (run cfg rnd acts))"
proof (induction acts rule: rev_induct)
  case Nil
  have "list_all (\<lambda>s. playerId s = None \<and> \<not> playerReady s) (fst (buildSlots cfg))"
    using foldl_slotsReducer_fresh [of "[]" "teamCount cfg" 0 "classes cfg"]
    by (simp add: buildSlots_def)
  then show ?case
    by (simp add: run_def newQueueService_def slots_reset uniquePlayers_fresh)
next
  case (snoc a acts)
  then show ?case
    by (simp add: run_snoc uniquePlayers_step)
qed

section \<open>Counting players, and the number of slots\<close>

lemma foldl_count_if:
  "foldl (\<lambda>prev curr. if P curr then prev + 1 else prev) (a::int) xs = a + int (length (filter P xs))"
  by (induction xs arbitrary: a) simp_all

lemma playerCount_filter: "playerCount q = int (length (filter occupied (slots q)))"
  using foldl_count_if [of "\<lambda>s. truthy (playerId s)" 0 "slots q"]
  by (simp add: playerCount_def occupied_def [abs_def])

lemma readyPlayerCount_filter: "readyPlayerCount q = int (length (filter playerReady (slots q)))"
  using foldl_count_if [of playerReady 0 "slots q"]
  by (simp add: readyPlayerCount_def)

lemma length_filter_full: "length (filter P xs) = length xs \<longleftrightarrow> (\<forall>x\<in>set xs. P x)"
proof (induction xs)
  case Nil
  then show ?case by simp
next
  case (Cons x xs)
  have "length (filter P xs) \<noteq> Suc (length xs)"
    using length_filter_le [of P xs] by linarith
  with Cons show ?case
    by (cases "P x") auto
qed

lemma length_step: "length (slots q) = length (fst (buildSlots cfg)) \<Longrightarrow>
  length (slots (step cfg q a)) = length (fst (buildSlots cfg))"
proof (cases a)
  case (JoinCall player activeGame slotId p sndr)
  assume l: "length (slots q) = length (fst (buildSlots cfg))"
  from slots_join_cases [of player activeGame slotId p sndr q] l JoinCall show ?thesis
    by auto
next
  case (LeaveCall p sndr)
  assume l: "length (slots q) = length (fst (buildSlots cfg))"
  from slots_leave_cases [of p sndr q] l LeaveCall show ?thesis
    by auto
next
  case (ReadyCall player p sndr)
  assume "length (slots q) = length (fst (buildSlots cfg))"
  with ReadyCall show ?thesis
    by simp
next
  case (ResetCall rnd)
  then show ?thesis
    by (simp add: slots_reset)
next
  case (RunPending i rnd)
  assume l: "length (slots q) = length (fst (buildSlots cfg))"
  let ?q = "q\<lparr>pending := take i (pending q) @ drop (Suc i) (pending q)\<rparr>"
  have "length (slots (runTask cfg rnd t ?q)) = length (fst (buildSlots cfg))" for t
  proof (cases t)
    case UpdateStateTask
    with slots_updateState [of cfg ?q] l show ?thesis
      by auto
  next
    case (ReadyUpTimeoutTask h)
    with slots_readyUpTimeout [of cfg ?q] l show ?thesis
      by auto
  next
    case LaunchResumeTask
    with l show ?thesis by simp
  next
    case ResetTask
    then show ?thesis
      by (simp add: slots_reset)
  next
    case (ReadyResumeTask gen k player sndr)
    with slots_readyResume_cases [of gen k player sndr ?q] l show ?thesis
      by auto
  qed
  with l RunPending show ?thesis
    by simp
qed

lemma length_run: "length (slots (run cfg rnd acts)) = length (fst (buildSlots cfg))"
proof (induction acts rule: rev_induct)
  case Nil
  show ?case
    by (simp add: run_def newQueueService_def slots_reset)
next
  case (snoc a acts)
  then show ?case
    by (simp add: run_snoc length_step)
qed

lemma length_run_valid:
  "validConfig cfg \<Longrightarrow> int (length (slots (run cfg rnd acts))) = requiredPlayerCount cfg"
  by (simp add: length_run length_buildSlots_valid)

section \<open>Leaving twice, joining one's own slot\<close>

lemma state_join [simp]: "state (snd (join player activeGame slotId p sndr q)) = state q"
  by (simp add: join_def Let_def removePlayer_def slotUpdated_def split: option.splits)

lemma state_leave [simp]: "state (snd (leave p sndr q)) = state q"
  by (simp add: leave_def Let_def slotUpdated_def split: option.splits)

lemma state_ready [simp]: "state (snd (ready player p sndr q)) = state q"
  by (simp add: ready_def Let_def split: option.splits)

lemma state_readyResume [simp]: "state (snd (readyResume gen i player sndr q)) = state q"
  by (cases player) (simp_all add: readyResume_def Let_def slotUpdated_def)

text \<open>The rest of \<^verbatim>\<open>ready\<close> fails in one way only, and not with one of its two errors.\<close>

lemma readyResume_error: "fst (readyResume gen i player sndr q) = Inl e \<Longrightarrow> e = TypeError"
  by (cases player) (simp_all add: readyResume_def Let_def)

lemma leave_error: "fst (leave p sndr q) = Inl e \<Longrightarrow> leave p sndr q = (Inl CannotUnready, q)"
  by (auto simp add: leave_def Let_def split: option.splits if_splits)

lemma leave_twice:
  assumes u: "uniquePlayers (slots q)" and ok: "fst (leave p sndr q) \<noteq> Inl CannotUnready"
  shows "leave p sndr' (snd (leave p sndr q)) = (Inr None, snd (leave p sndr q))"
proof (cases "findIndex (\<lambda>s. playerId s = Some p) (slots q)")
  case None
  then have "leave p sndr q = (Inr None, q)"
    by (simp add: leave_def)
  moreover from None have "leave p sndr' q = (Inr None, q)"
    by (simp add: leave_def)
  ultimately show ?thesis
    by simp
next
  case (Some i)
  from findIndex_Some [OF Some] have i: "i < length (slots q)" "playerId (slots q ! i) = Some p"
    by simp_all
  from ok Some have go: "\<not> (playerReady (slots q ! i) \<and> (state q = Ready \<or> state q = Launching))"
    by (auto simp add: leave_def)
  let ?ss = "(slots q)[i := (slots q ! i)\<lparr>playerId := None\<rparr>]"
  from Some go have s': "slots (snd (leave p sndr q)) = ?ss"
    by (auto simp add: leave_def Let_def slotUpdated_def)
  have "playerId (?ss ! k) \<noteq> Some p" if k: "k < length ?ss" for k
  proof (cases "k = i")
    case True
    with i show ?thesis by simp
  next
    case False
    from k have kl: "k < length (slots q)" by simp
    have "playerId (slots q ! k) \<noteq> Some p"
    proof
      assume "playerId (slots q ! k) = Some p"
      with u i kl have "i = k"
        unfolding uniquePlayers_def by (metis option.distinct(1))
      with False show False by simp
    qed
    with False show ?thesis by simp
  qed
  then have "\<forall>s\<in>set (slots (snd (leave p sndr q))). playerId s \<noteq> Some p"
    unfolding s' by (metis in_set_conv_nth)
  then show ?thesis
    by (rule leave_absent)
qed

text \<open>
  Claim C9. If the player holds no slot, \<^verbatim>\<open>leave\<close> returns \<^verbatim>\<open>null\<close> and the
  queue is unchanged. Hence, in every state the running service can reach, a second
  \<^verbatim>\<open>leave\<close> of the same player right after the first changes nothing, and it
  returns \<^verbatim>\<open>null\<close> unless the first call was refused with \<open>CannotUnready\<close>
  (in which case the second is refused as well).
\<close>

theorem leave_idempotent:
  "(list_all (\<lambda>s. playerId s \<noteq> Some p) (slots q) \<longrightarrow> leave p sndr q = (Inr None, q))
   \<and> snd (leave p sndr' (snd (leave p sndr (run cfg rnd acts)))) = snd (leave p sndr (run cfg rnd acts))
   \<and> (fst (leave p sndr (run cfg rnd acts)) \<noteq> Inl CannotUnready \<longrightarrow>
        fst (leave p sndr' (snd (leave p sndr (run cfg rnd acts)))) = Inr None)"
proof (intro conjI impI)
  assume "list_all (\<lambda>s. playerId s \<noteq> Some p) (slots q)"
  then show "leave p sndr q = (Inr None, q)"
    by (simp add: leave_absent list_all_iff)
next
  let ?w = "run cfg rnd acts"
  show "snd (leave p sndr' (snd (leave p sndr ?w))) = snd (leave p sndr ?w)"
  proof (cases "fst (leave p sndr ?w) = Inl CannotUnready")
    case True
    then have "leave p sndr ?w = (Inl CannotUnready, ?w)"
      by (rule leave_error)
    moreover from this have "leave p sndr' ?w = (Inl CannotUnready, ?w)"
      by (auto simp add: leave_def Let_def split: option.splits if_splits)
    ultimately show ?thesis
      by simp
  next
    case False
    from leave_twice [OF uniquePlayers_run False] show ?thesis
      by simp
  qed
next
  let ?w = "run cfg rnd acts"
  assume "fst (leave p sndr ?w) \<noteq> Inl CannotUnready"
  from leave_twice [OF uniquePlayers_run this]
  show "fst (leave p sndr' (snd (leave p sndr ?w))) = Inr None"
    by simp
qed

text \<open>
  Claim C10, as amended. Let \<open>p\<close> (not the empty string) hold the slot that
  \<^verbatim>\<open>join\<close> finds under the id \<open>s\<close>. Then \<^verbatim>\<open>join(s, p)\<close> fails and leaves the
  queue as it was, so \<open>p\<close> still holds the slot with the same ready flag. The error
  is \<open>SlotTaken\<close> when the lookup of the player succeeded and found no active game;
  those two checks come first and fail with errors of their own.
\<close>

theorem join_own_slot:
  assumes "findIndex (\<lambda>x. id_slot x = s) (slots q) = Some i"
    and "playerId (slots q ! i) = Some p" and "p \<noteq> []"
  shows "(\<exists>e. fst (join player activeGame s p sndr q) = Inl e)
       \<and> snd (join player activeGame s p sndr q) = q
       \<and> (player \<noteq> None \<and> \<not> activeGame \<longrightarrow> fst (join player activeGame s p sndr q) = Inl SlotTaken)"
  using assms by (cases player) (simp_all add: join_def)

section \<open>The ready-up timer and the launch\<close>

lemma sum_count_length:
  "list_all (\<lambda>c. 1 \<le> count c) cs \<Longrightarrow> int (length cs) \<le> sum_list (map count cs)"
  by (induction cs) simp_all

lemma sum_count_pos:
  "cs \<noteq> [] \<Longrightarrow> list_all (\<lambda>c. 1 \<le> count c) cs \<Longrightarrow> 1 \<le> sum_list (map count cs)"
  using sum_count_length [of cs] by (cases cs) simp_all

lemma requiredPlayerCount_pos: "validConfig cfg \<Longrightarrow> 1 \<le> requiredPlayerCount cfg"
proof -
  assume v: "validConfig cfg"
  then have "1 \<le> sum_list (map count (classes cfg))" "1 \<le> teamCount cfg"
    by (simp_all add: validConfig_def sum_count_pos)
  then have "1 * 1 \<le> sum_list (map count (classes cfg)) * teamCount cfg"
    by (intro mult_mono) simp_all
  then show ?thesis
    by (simp add: requiredPlayerCount_sum)
qed

lemma emitted_setState_launch:
  "state q = Ready \<Longrightarrow>
   emitted (setState cfg Launching q) =
     emitted q @ [GameCreate (slots q) cfg (map_queue q), QueueStateUpdate Launching]"
  by (simp add: setState_def onStateChange_def launch_def)

lemma readyUpTimeout_cleans:
  assumes "state q = Ready" "readyPlayerCount q \<noteq> requiredPlayerCount cfg"
  shows "state (readyUpTimeout_fired cfg q) = Waiting
       \<and> slots (readyUpTimeout_fired cfg q) = map cleanupSlot (slots q)"
  using assms by (simp add: readyUpTimeout_fired_def slots_setState)

text \<open>
  Claim C6. In a state of the running service (valid configuration) whose lifecycle is
  \<open>Ready\<close> and in which some slot is not confirmed, the ready-up timeout sets the
  lifecycle to \<open>Waiting\<close>; every slot that was not confirmed loses its player,
  every confirmed slot keeps its player, and no slot is confirmed afterwards.
\<close>

theorem readyUpTimeout_evicts_unconfirmed:
  assumes "validConfig cfg" and "q = run cfg rnd acts" and "state q = Ready"
    and "\<not> list_all playerReady (slots q)"
  shows "state (readyUpTimeout_fired cfg q) = Waiting
       \<and> length (slots (readyUpTimeout_fired cfg q)) = length (slots q)
       \<and> (\<forall>i<length (slots q).
            (\<not> playerReady (slots q ! i) \<longrightarrow> playerId (slots (readyUpTimeout_fired cfg q) ! i) = None)
          \<and> (playerReady (slots q ! i) \<longrightarrow>
               playerId (slots (readyUpTimeout_fired cfg q) ! i) = playerId (slots q ! i))
          \<and> \<not> playerReady (slots (readyUpTimeout_fired cfg q) ! i)
          \<and> id_slot (slots (readyUpTimeout_fired cfg q) ! i) = id_slot (slots q ! i)
          \<and> gameClass (slots (readyUpTimeout_fired cfg q) ! i) = gameClass (slots q ! i))"
proof -
  from assms(4) have "length (filter playerReady (slots q)) \<noteq> length (slots q)"
    by (simp add: length_filter_full list_all_iff)
  moreover from assms(1,2) have "int (length (slots q)) = requiredPlayerCount cfg"
    by (simp add: length_run_valid)
  ultimately have "readyPlayerCount q \<noteq> requiredPlayerCount cfg"
    by (simp add: readyPlayerCount_filter)
  from readyUpTimeout_cleans [OF assms(3) this] show ?thesis
    by (simp add: cleanupSlot_def)
qed

text \<open>
  Claim C3, as amended. In a state of the running service (valid configuration) whose
  lifecycle is \<open>Ready\<close>, in which every slot of the queue has its ready flag set and
  at least one slot is occupied, \<^verbatim>\<open>updateState\<close> sets the lifecycle to
  \<open>Launching\<close> and calls \<^verbatim>\<open>gameService.create\<close> with the slots, the configuration
  and the selected map, before it announces the new state.
\<close>

theorem updateState_launches:
  assumes "validConfig cfg" and "q = run cfg rnd acts" and "state q = Ready"
    and "list_all playerReady (slots q)" and "\<exists>s\<in>set (slots q). occupied s"
  shows "state (updateState cfg q) = Launching
       \<and> slots (updateState cfg q) = slots q
       \<and> map_queue (updateState cfg q) = map_queue q
       \<and> emitted (updateState cfg q) =
           emitted q @ [GameCreate (slots q) cfg (map_queue q), QueueStateUpdate Launching]"
proof -
  from assms(4) have "length (filter playerReady (slots q)) = length (slots q)"
    by (simp add: length_filter_full list_all_iff)
  moreover from assms(1,2) have "int (length (slots q)) = requiredPlayerCount cfg"
    by (simp add: length_run_valid)
  ultimately have r: "readyPlayerCount q = requiredPlayerCount cfg"
    by (simp add: readyPlayerCount_filter)
  from assms(5) have "filter occupied (slots q) \<noteq> []"
    by (simp add: filter_empty_conv)
  then have p: "playerCount q \<noteq> 0"
    by (simp add: playerCount_filter)
  have u: "updateState cfg q = setState cfg Launching q"
    using assms(3) r p by (simp add: updateState_def)
  have "map_queue (setState cfg Launching q) = map_queue q"
    using assms(3) by (simp add: setState_def onStateChange_def launch_def)
  with assms(3) show ?thesis
    unfolding u by (simp add: slots_setState emitted_setState_launch)
qed

lemma state_reset_valid:
  assumes "validConfig cfg"
  shows "state (reset cfg rnd q) \<noteq> Ready \<or> state q = Ready"
proof -
  let ?q4 = "emit (QueueMapUpdated (map_queue (randomizeMap cfg rnd (emit (QueueSlotsReset (slots (resetSlots cfg q))) (resetSlots cfg q)))))
               (randomizeMap cfg rnd (emit (QueueSlotsReset (slots (resetSlots cfg q))) (resetSlots cfg q)))"
  have r: "reset cfg rnd q = updateState cfg ?q4"
    by (simp add: reset_def Let_def)
  have s4: "slots ?q4 = fst (buildSlots cfg)" and st4: "state ?q4 = state q"
    by (simp_all add: randomizeMap_def resetSlots_def Let_def)
  have fresh: "list_all (\<lambda>s. playerId s = None \<and> \<not> playerReady s) (fst (buildSlots cfg))"
    using foldl_slotsReducer_fresh [of "[]" "teamCount cfg" 0 "classes cfg"]
    by (simp add: buildSlots_def)
  then have "filter occupied (fst (buildSlots cfg)) = []"
    by (simp add: filter_empty_conv list_all_iff occupied_def)
  then have pc: "playerCount ?q4 = 0"
    by (simp only: playerCount_filter s4) simp
  from requiredPlayerCount_pos [OF assms] have "requiredPlayerCount cfg \<noteq> 0"
    by simp
  with pc st4 show ?thesis
    unfolding r by (cases "state q") (simp_all add: updateState_def)
qed

text \<open>
  Claim C1, as amended. Whenever a step of the running service (valid configuration)
  takes the lifecycle from another state to \<open>Ready\<close>, every slot is occupied in
  the state it leads to.
\<close>

theorem ready_entered_full:
  assumes "validConfig cfg" and "state (run cfg rnd acts) \<noteq> Ready"
    and "state (step cfg (run cfg rnd acts) a) = Ready"
  shows "list_all occupied (slots (step cfg (run cfg rnd acts) a))"
proof -
  let ?w = "run cfg rnd acts"
  have len: "int (length (slots ?w)) = requiredPlayerCount cfg"
    using assms(1) by (rule length_run_valid)
  show ?thesis
  proof (cases a)
    case (JoinCall player activeGame slotId p sndr)
    with assms(2,3) show ?thesis by simp
  next
    case (LeaveCall p sndr)
    with assms(2,3) show ?thesis by simp
  next
    case (ReadyCall player p sndr)
    with assms(2,3) show ?thesis by simp
  next
    case (ResetCall r)
    with assms(2,3) state_reset_valid [OF assms(1), of r ?w] show ?thesis
      by simp
  next
    case (RunPending i r)
    show ?thesis
    proof (cases "i < length (pending ?w)")
      case False
      with RunPending assms(2,3) show ?thesis by simp
    next
      case True
      let ?q = "?w\<lparr>pending := take i (pending ?w) @ drop (Suc i) (pending ?w)\<rparr>"
      have st: "state ?q = state ?w" and sl: "slots ?q = slots ?w"
        by simp_all
      from True RunPending have stp: "step cfg ?w a = runTask cfg r (pending ?w ! i) ?q"
        by simp
      show ?thesis
      proof (cases "pending ?w ! i")
        case UpdateStateTask
        with stp have e: "step cfg ?w a = updateState cfg ?q"
          by simp
        show ?thesis
        proof (cases "state ?w")
          case Waiting
          with assms(3) e st have pc: "playerCount ?q = requiredPlayerCount cfg"
            by (auto simp add: updateState_def split: if_splits)
          with len sl have "length (filter occupied (slots ?w)) = length (slots ?w)"
            by (simp add: playerCount_filter)
          then have "list_all occupied (slots ?w)"
            by (simp add: length_filter_full list_all_iff)
          moreover from Waiting pc st sl have "slots (updateState cfg ?q) = slots ?w"
            by (simp add: updateState_def slots_setState)
          ultimately show ?thesis
            using e by simp
        next
          case Ready
          with assms(2) show ?thesis by simp
        next
          case Launching
          with assms(3) e st show ?thesis
            by (simp add: updateState_def)
        qed
      next
        case (ReadyUpTimeoutTask h)
        with stp have "step cfg ?w a = readyUpTimeout_fired cfg ?q"
          by simp
        with assms(3) show ?thesis
          by (simp add: readyUpTimeout_fired_def split: if_splits)
      next
        case LaunchResumeTask
        with stp assms(2,3) st show ?thesis
          by simp
      next
        case ResetTask
        with stp have "step cfg ?w a = reset cfg r ?q"
          by simp
        with assms(2,3) st state_reset_valid [OF assms(1), of r ?q] show ?thesis
          by simp
      next
        case (ReadyResumeTask gen k player sndr)
        with stp assms(2,3) st show ?thesis
          by simp
      qed
    qed
  qed
qed

section \<open>One slot per player\<close>

lemma join_moves_player:
  assumes a: "a < length (slots q)" and pa: "playerId (slots q ! a) = Some p"
    and ne: "id_slot (slots q ! a) \<noteq> slotId"
    and ok: "fst (join player activeGame slotId p sndr q) = Inr s'"
  shows "playerId (slots (snd (join player activeGame slotId p sndr q)) ! a) = None
       \<and> QueueSlotUpdate (vacate (slots q ! a)) None
           \<in> set (drop (length (emitted q)) (emitted (snd (join player activeGame slotId p sndr q))))
       \<and> playerId s' = Some p \<and> id_slot s' = slotId"
proof -
  from ok obtain n where pl: "player = Some n" and ag: "\<not> activeGame"
    by (cases player; cases activeGame) (simp_all add: join_def)
  from ok pl ag obtain i where fi: "findIndex (\<lambda>s. id_slot s = slotId) (slots q) = Some i"
    by (cases "findIndex (\<lambda>s. id_slot s = slotId) (slots q)") (simp_all add: join_def)
  from ok pl ag fi have free: "\<not> truthy (playerId (slots q ! i))"
    by (cases "truthy (playerId (slots q ! i))") (simp_all add: join_def)
  from findIndex_Some [OF fi] have i: "i < length (slots q)" "id_slot (slots q ! i) = slotId"
    by simp_all
  with ne have ia: "i \<noteq> a"
    by auto
  let ?ss1 = "map (\<lambda>s. if playerId s = Some p then vacate s else s) (slots q)"
  let ?s = "if state q = Ready then (?ss1 ! i)\<lparr>playerId := Some p, playerReady := True\<rparr>
            else (?ss1 ! i)\<lparr>playerId := Some p\<rparr>"
  have res: "join player activeGame slotId p sndr q =
      (Inr ?s, schedule UpdateStateTask (slotUpdated ?s sndr ((removePlayer p q)\<lparr>slots := ?ss1[i := ?s]\<rparr>)))"
    using pl ag fi free by (simp add: join_def Let_def removePlayer_def)
  have sl: "slots (snd (join player activeGame slotId p sndr q)) = ?ss1[i := ?s]"
    unfolding res by (simp add: slotUpdated_def)
  have em: "emitted (snd (join player activeGame slotId p sndr q)) =
      emitted q @ map (\<lambda>s. QueueSlotUpdate (vacate s) None) (filter (\<lambda>s. playerId s = Some p) (slots q))
        @ [QueueSlotUpdate ?s sndr]"
    unfolding res by (simp add: slotUpdated_def removePlayer_def)
  have "playerId (?ss1[i := ?s] ! a) = None"
    using ia a pa by (simp add: vacate_def)
  moreover have "slots q ! a \<in> set (filter (\<lambda>s. playerId s = Some p) (slots q))"
    using a pa by simp
  then have "QueueSlotUpdate (vacate (slots q ! a)) None
      \<in> set (drop (length (emitted q)) (emitted (snd (join player activeGame slotId p sndr q))))"
    unfolding em by auto
  moreover from ok res have "s' = ?s"
    by simp
  then have "playerId s' = Some p \<and> id_slot s' = slotId"
    using i by (simp add: vacate_def)
  ultimately show ?thesis
    unfolding sl by simp
qed

text \<open>
  Claim C4. In every state the service reaches, two slots that hold the same player
  are the same slot. And when a player who holds slot \<open>a\<close> joins a slot with
  another id and the call succeeds, slot \<open>a\<close> is vacated by that call, a slot update
  for the vacated slot is among the messages the call emits, and the slot returned
  is the one asked for, now held by the player.
\<close>

theorem single_occupancy:
  "(i < length (slots (run cfg rnd acts)) \<and> j < length (slots (run cfg rnd acts))
      \<and> playerId (slots (run cfg rnd acts) ! i) = Some p
      \<and> playerId (slots (run cfg rnd acts) ! j) = Some p \<longrightarrow> i = j)
   \<and> (a < length (slots q) \<and> playerId (slots q ! a) = Some p \<and> id_slot (slots q ! a) \<noteq> slotId
      \<and> fst (join player activeGame slotId p sndr q) = Inr s' \<longrightarrow>
        playerId (slots (snd (join player activeGame slotId p sndr q)) ! a) = None
      \<and> QueueSlotUpdate (vacate (slots q ! a)) None
           \<in> set (drop (length (emitted q)) (emitted (snd (join player activeGame slotId p sndr q))))
      \<and> playerId s' = Some p \<and> id_slot s' = slotId)"
proof (intro conjI impI)
  assume h: "i < length (slots (run cfg rnd acts)) \<and> j < length (slots (run cfg rnd acts))
      \<and> playerId (slots (run cfg rnd acts) ! i) = Some p
      \<and> playerId (slots (run cfg rnd acts) ! j) = Some p"
  with uniquePlayers_run [of cfg rnd acts] show "i = j"
    unfolding uniquePlayers_def by (metis option.distinct(1))
next
  assume h: "a < length (slots q) \<and> playerId (slots q ! a) = Some p \<and> id_slot (slots q ! a) \<noteq> slotId
      \<and> fst (join player activeGame slotId p sndr q) = Inr s'"
  then have c: "playerId (slots (snd (join player activeGame slotId p sndr q)) ! a) = None
       \<and> QueueSlotUpdate (vacate (slots q ! a)) None
           \<in> set (drop (length (emitted q)) (emitted (snd (join player activeGame slotId p sndr q))))
       \<and> playerId s' = Some p \<and> id_slot s' = slotId"
    by (intro join_moves_player) simp_all
  from c show "playerId (slots (snd (join player activeGame slotId p sndr q)) ! a) = None" by simp
  from c show "QueueSlotUpdate (vacate (slots q ! a)) None
           \<in> set (drop (length (emitted q)) (emitted (snd (join player activeGame slotId p sndr q))))" by simp
  from c show "playerId s' = Some p" by simp
  from c show "id_slot s' = slotId" by simp
qed

section \<open>The runs of the test queue, evaluated\<close>

lemma run_append: "run cfg rnd (xs @ ys) = foldl (step cfg) (run cfg rnd xs) ys"
  by (simp add: run_def)

lemma run_scenarioE:
  "run configTest 0 scenarioE =
     \<lparr>slots = [(soldierSlot 0 (Some ''p1'') False), (soldierSlot 1 None False)],
      state = Waiting, map_queue = Some ''cp_process'', timer = None,
      emitted =
        [QueueSlotsReset [(soldierSlot 0 None False), (soldierSlot 1 None False)],
         QueueMapUpdated (Some ''cp_process''),
         QueueSlotUpdate (soldierSlot 0 (Some ''p1'') False) (Some 1)],
      pending = [], timerSeq = 0,
      retired =
        [[]]\<rparr>"
  by code_simp

lemma run_scenarioFull:
  "run configTest 0 scenarioFull =
     \<lparr>slots = [(soldierSlot 0 (Some ''p1'') False), (soldierSlot 1 (Some ''p2'') False)],
      state = Waiting, map_queue = Some ''cp_process'', timer = None,
      emitted =
        [QueueSlotsReset [(soldierSlot 0 None False), (soldierSlot 1 None False)],
         QueueMapUpdated (Some ''cp_process''),
         QueueSlotUpdate (soldierSlot 0 (Some ''p1'') False) (Some 1),
         QueueSlotUpdate (soldierSlot 1 (Some ''p2'') False) (Some 2)],
      pending = [UpdateStateTask], timerSeq = 0,
      retired =
        [[]]\<rparr>"
  unfolding scenarioFull_def run_append run_scenarioE by code_simp

lemma run_scenarioA:
  "run configTest 0 scenarioA =
     \<lparr>slots = [(soldierSlot 0 (Some ''p1'') False), (soldierSlot 1 (Some ''p2'') False)],
      state = Ready, map_queue = Some ''cp_process'', timer = Some 0,
      emitted =
        [QueueSlotsReset [(soldierSlot 0 None False), (soldierSlot 1 None False)],
         QueueMapUpdated (Some ''cp_process''),
         QueueSlotUpdate (soldierSlot 0 (Some ''p1'') False) (Some 1),
         QueueSlotUpdate (soldierSlot 1 (Some ''p2'') False) (Some 2),
         QueueStateUpdate Ready],
      pending = [ReadyUpTimeoutTask 0], timerSeq = 1,
      retired =
        [[]]\<rparr>"
  unfolding scenarioA_def run_append run_scenarioFull by code_simp

lemma run_scenarioLeft:
  "run configTest 0 scenarioLeft =
     \<lparr>slots = [(soldierSlot 0 None False), (soldierSlot 1 (Some ''p2'') False)],
      state = Ready, map_queue = Some ''cp_process'', timer = Some 0,
      emitted =
        [QueueSlotsReset [(soldierSlot 0 None False), (soldierSlot 1 None False)],
         QueueMapUpdated (Some ''cp_process''),
         QueueSlotUpdate (soldierSlot 0 (Some ''p1'') False) (Some 1),
         QueueSlotUpdate (soldierSlot 1 (Some ''p2'') False) (Some 2),
         QueueStateUpdate Ready,
         QueueSlotUpdate (soldierSlot 0 None False) (Some 1)],
      pending = [ReadyUpTimeoutTask 0], timerSeq = 1,
      retired =
        [[]]\<rparr>"
  unfolding scenarioLeft_def run_append run_scenarioA by code_simp

lemma run_scenarioConfirmed:
  "run configTest 0 scenarioConfirmed =
     \<lparr>slots = [(soldierSlot 0 (Some ''p1'') True), (soldierSlot 1 (Some ''p2'') False)],
      state = Ready, map_queue = Some ''cp_process'', timer = Some 0,
      emitted =
        [QueueSlotsReset [(soldierSlot 0 None False), (soldierSlot 1 None False)],
         QueueMapUpdated (Some ''cp_process''),
         QueueSlotUpdate (soldierSlot 0 (Some ''p1'') False) (Some 1),
         QueueSlotUpdate (soldierSlot 1 (Some ''p2'') False) (Some 2),
         QueueStateUpdate Ready,
         QueueSlotUpdate (soldierSlot 0 (Some ''p1'') True) (Some 1)],
      pending = [ReadyUpTimeoutTask 0], timerSeq = 1,
      retired =
        [[]]\<rparr>"
  unfolding scenarioConfirmed_def run_append run_scenarioA by code_simp

lemma run_scenarioGap:
  "run configTest 0 scenarioGap =
     \<lparr>slots = [(soldierSlot 0 (Some ''p1'') True), (soldierSlot 1 None False)],
      state = Ready, map_queue = Some ''cp_process'', timer = Some 0,
      emitted =
        [QueueSlotsReset [(soldierSlot 0 None False), (soldierSlot 1 None False)],
         QueueMapUpdated (Some ''cp_process''),
         QueueSlotUpdate (soldierSlot 0 (Some ''p1'') False) (Some 1),
         QueueSlotUpdate (soldierSlot 1 (Some ''p2'') False) (Some 2),
         QueueStateUpdate Ready,
         QueueSlotUpdate (soldierSlot 0 (Some ''p1'') True) (Some 1),
         QueueSlotUpdate (soldierSlot 1 None False) (Some 2)],
      pending = [ReadyUpTimeoutTask 0, UpdateStateTask], timerSeq = 1,
      retired =
        [[]]\<rparr>"
  unfolding scenarioGap_def run_append run_scenarioConfirmed by code_simp

lemma run_scenarioAllConfirmed:
  "run configTest 0 scenarioAllConfirmed =
     \<lparr>slots = [(soldierSlot 0 (Some ''p1'') True), (soldierSlot 1 (Some ''p2'') True)],
      state = Ready, map_queue = Some ''cp_process'', timer = Some 0,
      emitted =
        [QueueSlotsReset [(soldierSlot 0 None False), (soldierSlot 1 None False)],
         QueueMapUpdated (Some ''cp_process''),
         QueueSlotUpdate (soldierSlot 0 (Some ''p1'') False) (Some 1),
         QueueSlotUpdate (soldierSlot 1 (Some ''p2'') False) (Some 2),
         QueueStateUpdate Ready,
         QueueSlotUpdate (soldierSlot 0 (Some ''p1'') True) (Some 1),
         QueueSlotUpdate (soldierSlot 1 (Some ''p2'') True) (Some 2)],
      pending = [ReadyUpTimeoutTask 0, UpdateStateTask], timerSeq = 1,
      retired =
        [[]]\<rparr>"
  unfolding scenarioAllConfirmed_def run_append run_scenarioConfirmed by code_simp

lemma run_scenarioLaunch:
  "run configTest 0 scenarioLaunch =
     \<lparr>slots = [(soldierSlot 0 (Some ''p1'') True), (soldierSlot 1 (Some ''p2'') True)],
      state = Launching, map_queue = Some ''cp_process'', timer = None,
      emitted =
        [QueueSlotsReset [(soldierSlot 0 None False), (soldierSlot 1 None False)],
         QueueMapUpdated (Some ''cp_process''),
         QueueSlotUpdate (soldierSlot 0 (Some ''p1'') False) (Some 1),
         QueueSlotUpdate (soldierSlot 1 (Some ''p2'') False) (Some 2),
         QueueStateUpdate Ready,
         QueueSlotUpdate (soldierSlot 0 (Some ''p1'') True) (Some 1),
         QueueSlotUpdate (soldierSlot 1 (Some ''p2'') True) (Some 2),
         GameCreate [(soldierSlot 0 (Some ''p1'') True), (soldierSlot 1 (Some ''p2'') True)]
           configTest (Some ''cp_process''),
         QueueStateUpdate Launching],
      pending = [ReadyUpTimeoutTask 0, LaunchResumeTask], timerSeq = 1,
      retired =
        [[]]\<rparr>"
  unfolding scenarioLaunch_def run_append run_scenarioAllConfirmed by code_simp

lemma run_scenarioRefill:
  "run configTest 0 scenarioRefill =
     \<lparr>slots = [(soldierSlot 0 (Some ''p3'') False), (soldierSlot 1 (Some ''p4'') False)],
      state = Ready, map_queue = Some ''cp_badlands'', timer = Some 1,
      emitted =
        [QueueSlotsReset [(soldierSlot 0 None False), (soldierSlot 1 None False)],
         QueueMapUpdated (Some ''cp_process''),
         QueueSlotUpdate (soldierSlot 0 (Some ''p1'') False) (Some 1),
         QueueSlotUpdate (soldierSlot 1 (Some ''p2'') False) (Some 2),
         QueueStateUpdate Ready,
         QueueSlotUpdate (soldierSlot 0 (Some ''p1'') True) (Some 1),
         QueueSlotUpdate (soldierSlot 1 (Some ''p2'') True) (Some 2),
         GameCreate [(soldierSlot 0 (Some ''p1'') True), (soldierSlot 1 (Some ''p2'') True)]
           configTest (Some ''cp_process''),
         QueueStateUpdate Launching,
         QueueSlotsReset [(soldierSlot 0 None False), (soldierSlot 1 None False)],
         QueueMapUpdated (Some ''cp_badlands''),
         QueueStateUpdate Waiting,
         QueueSlotUpdate (soldierSlot 0 (Some ''p3'') False) (Some 3),
         QueueSlotUpdate (soldierSlot 1 (Some ''p4'') False) (Some 4),
         QueueStateUpdate Ready],
      pending = [ReadyUpTimeoutTask 0, ReadyUpTimeoutTask 1], timerSeq = 2,
      retired =
        [[],
         [(soldierSlot 0 (Some ''p1'') True), (soldierSlot 1 (Some ''p2'') True)]]\<rparr>"
  unfolding scenarioRefill_def run_append run_scenarioLaunch by code_simp

lemma run_scenarioOvertaken:
  "run configTest 0 scenarioOvertaken =
     \<lparr>slots = [(soldierSlot 0 None True), (soldierSlot 1 (Some ''p2'') True)],
      state = Launching, map_queue = Some ''cp_process'', timer = None,
      emitted =
        [QueueSlotsReset [(soldierSlot 0 None False), (soldierSlot 1 None False)],
         QueueMapUpdated (Some ''cp_process''),
         QueueSlotUpdate (soldierSlot 0 (Some ''p1'') False) (Some 1),
         QueueSlotUpdate (soldierSlot 1 (Some ''p2'') False) (Some 2),
         QueueStateUpdate Ready,
         QueueSlotUpdate (soldierSlot 0 None False) (Some 1),
         QueueSlotUpdate (soldierSlot 0 None True) (Some 1),
         QueueSlotUpdate (soldierSlot 1 (Some ''p2'') True) (Some 2),
         GameCreate [(soldierSlot 0 None True), (soldierSlot 1 (Some ''p2'') True)]
           configTest (Some ''cp_process''),
         QueueStateUpdate Launching],
      pending = [ReadyUpTimeoutTask 0, LaunchResumeTask], timerSeq = 1,
      retired =
        [[]]\<rparr>"
  unfolding scenarioOvertaken_def run_append run_scenarioA by code_simp

section \<open>Instances and failing runs\<close>

text \<open>
  Claim C1 as stated fails: after both players joined and the queue became ready,
  \<open>p1\<close>, who has not confirmed, leaves; the lifecycle stays \<open>Ready\<close> and slot 0
  has no player.
\<close>

theorem ready_with_vacant_slot:
  "state (run configTest 0 scenarioLeft) = Ready
   \<and> playerId (slots (run configTest 0 scenarioLeft) ! 0) = None"
  unfolding run_scenarioLeft by code_simp

text \<open>The step that makes the test queue ready, as an instance of the amended C1.\<close>

theorem ready_entered_full_witness:
  "validConfig configTest
   \<and> state (run configTest 0 scenarioFull) = Waiting
   \<and> state (step configTest (run configTest 0 scenarioFull) (RunPending 0 0)) = Ready
   \<and> list_all occupied (slots (step configTest (run configTest 0 scenarioFull) (RunPending 0 0)))"
proof -
  have v: "validConfig configTest"
    by (simp add: validConfig_def configTest_def)
  have e: "state (run configTest 0 scenarioFull) = Waiting
      \<and> state (step configTest (run configTest 0 scenarioFull) (RunPending 0 0)) = Ready"
    unfolding run_scenarioFull by code_simp
  then have n: "state (run configTest 0 scenarioFull) \<noteq> Ready"
    and r: "state (step configTest (run configTest 0 scenarioFull) (RunPending 0 0)) = Ready"
    by simp_all
  from v e ready_entered_full [OF v n r] show ?thesis
    by (intro conjI) simp_all
qed

text \<open>
  Claim C3 as stated fails: the queue is ready, \<open>p1\<close> has confirmed, \<open>p2\<close> has
  left without confirming. Every occupied slot is confirmed, and \<^verbatim>\<open>updateState\<close>
  changes nothing: no launch, no call of \<^verbatim>\<open>gameService.create\<close>.
\<close>

theorem confirmed_but_vacant_no_launch:
  "state (run configTest 0 scenarioGap) = Ready
   \<and> map playerId (slots (run configTest 0 scenarioGap)) = [Some ''p1'', None]
   \<and> map playerReady (slots (run configTest 0 scenarioGap)) = [True, False]
   \<and> updateState configTest (run configTest 0 scenarioGap) = run configTest 0 scenarioGap"
  unfolding run_scenarioGap by code_simp

text \<open>Both players confirmed: an instance of the amended C3.\<close>

theorem updateState_launches_witness:
  "validConfig configTest
   \<and> state (run configTest 0 scenarioAllConfirmed) = Ready
   \<and> map playerReady (slots (run configTest 0 scenarioAllConfirmed)) = [True, True]
   \<and> map playerId (slots (run configTest 0 scenarioAllConfirmed)) = [Some ''p1'', Some ''p2'']
   \<and> state (updateState configTest (run configTest 0 scenarioAllConfirmed)) = Launching
   \<and> emitted (updateState configTest (run configTest 0 scenarioAllConfirmed)) =
       emitted (run configTest 0 scenarioAllConfirmed) @
         [GameCreate (slots (run configTest 0 scenarioAllConfirmed)) configTest
            (map_queue (run configTest 0 scenarioAllConfirmed)),
          QueueStateUpdate Launching]"
proof -
  let ?q = "run configTest 0 scenarioAllConfirmed"
  have v: "validConfig configTest"
    by (simp add: validConfig_def configTest_def)
  have e: "state ?q = Ready
      \<and> map playerReady (slots ?q) = [True, True]
      \<and> map playerId (slots ?q) = [Some ''p1'', Some ''p2'']
      \<and> list_all playerReady (slots ?q)
      \<and> (\<exists>s\<in>set (slots ?q). occupied s)"
    unfolding run_scenarioAllConfirmed by code_simp
  then have st: "state ?q = Ready" and allr: "list_all playerReady (slots ?q)"
    and occ: "\<exists>s\<in>set (slots ?q). occupied s"
    by simp_all
  from updateState_launches [OF v refl st allr occ] v e show ?thesis
    by (intro conjI) simp_all
qed

text \<open>Player \<open>p1\<close> moves from slot 0 to slot 1: an instance of C4.\<close>

theorem single_occupancy_witness:
  "playerId (slots (run configTest 0 scenarioE) ! 0) = Some ''p1''
   \<and> id_slot (slots (run configTest 0 scenarioE) ! 0) = 0
   \<and> fst (join (Some ''alice'') False 1 ''p1'' (Some 1) (run configTest 0 scenarioE)) =
       Inr (soldierSlot 1 (Some ''p1'') False)
   \<and> playerId (slots (snd (join (Some ''alice'') False 1 ''p1'' (Some 1) (run configTest 0 scenarioE))) ! 0) = None
   \<and> QueueSlotUpdate (vacate (slots (run configTest 0 scenarioE) ! 0)) None
        \<in> set (drop (length (emitted (run configTest 0 scenarioE)))
                 (emitted (snd (join (Some ''alice'') False 1 ''p1'' (Some 1) (run configTest 0 scenarioE)))))"
proof -
  let ?q = "run configTest 0 scenarioE"
  let ?s = "soldierSlot 1 (Some ''p1'') False"
  have e: "0 < length (slots ?q)
      \<and> playerId (slots ?q ! 0) = Some ''p1''
      \<and> id_slot (slots ?q ! 0) = 0
      \<and> fst (join (Some ''alice'') False 1 ''p1'' (Some 1) ?q) = Inr ?s"
    unfolding run_scenarioE by code_simp
  then have l: "0 < length (slots ?q)" and p: "playerId (slots ?q ! 0) = Some ''p1''"
    and i: "id_slot (slots ?q ! 0) = 0"
    and j: "fst (join (Some ''alice'') False 1 ''p1'' (Some 1) ?q) = Inr ?s"
    by simp_all
  from i have ne: "id_slot (slots ?q ! 0) \<noteq> 1"
    by simp
  from single_occupancy [where cfg = configTest and rnd = 0 and acts = scenarioE and i = 0 and j = 0
      and p = "''p1''" and a = 0 and q = ?q and slotId = 1 and player = "Some ''alice''"
      and activeGame = False and sndr = "Some 1" and s' = ?s] l p ne j
  have "playerId (slots (snd (join (Some ''alice'') False 1 ''p1'' (Some 1) ?q)) ! 0) = None
      \<and> QueueSlotUpdate (vacate (slots ?q ! 0)) None
        \<in> set (drop (length (emitted ?q)) (emitted (snd (join (Some ''alice'') False 1 ''p1'' (Some 1) ?q))))"
    by blast
  with p i j show ?thesis
    by (intro conjI) simp_all
qed

text \<open>
  The timer fires when \<open>p1\<close> has confirmed and \<open>p2\<close> has not: an instance of C6.
\<close>

theorem readyUpTimeout_evicts_unconfirmed_witness:
  "validConfig configTest
   \<and> state (run configTest 0 scenarioConfirmed) = Ready
   \<and> map playerReady (slots (run configTest 0 scenarioConfirmed)) = [True, False]
   \<and> map playerId (slots (run configTest 0 scenarioConfirmed)) = [Some ''p1'', Some ''p2'']
   \<and> state (readyUpTimeout_fired configTest (run configTest 0 scenarioConfirmed)) = Waiting
   \<and> playerId (slots (readyUpTimeout_fired configTest (run configTest 0 scenarioConfirmed)) ! 0) = Some ''p1''
   \<and> playerId (slots (readyUpTimeout_fired configTest (run configTest 0 scenarioConfirmed)) ! 1) = None
   \<and> \<not> playerReady (slots (readyUpTimeout_fired configTest (run configTest 0 scenarioConfirmed)) ! 0)
   \<and> \<not> playerReady (slots (readyUpTimeout_fired configTest (run configTest 0 scenarioConfirmed)) ! 1)"
proof -
  let ?q = "run configTest 0 scenarioConfirmed"
  have v: "validConfig configTest"
    by (simp add: validConfig_def configTest_def)
  have e: "state ?q = Ready
      \<and> map playerReady (slots ?q) = [True, False]
      \<and> map playerId (slots ?q) = [Some ''p1'', Some ''p2'']
      \<and> \<not> list_all playerReady (slots ?q)
      \<and> length (slots ?q) = 2
      \<and> playerReady (slots ?q ! 0) \<and> \<not> playerReady (slots ?q ! 1)
      \<and> playerId (slots ?q ! 0) = Some ''p1''"
    unfolding run_scenarioConfirmed by code_simp
  then have st: "state ?q = Ready" and nall: "\<not> list_all playerReady (slots ?q)"
    and len: "length (slots ?q) = 2"
    and r0: "playerReady (slots ?q ! 0)" and r1: "\<not> playerReady (slots ?q ! 1)"
    and p0: "playerId (slots ?q ! 0) = Some ''p1''"
    by simp_all
  note t = readyUpTimeout_evicts_unconfirmed [OF v refl st nall]
  from t have t1: "state (readyUpTimeout_fired configTest ?q) = Waiting"
    by simp
  from t len have t2: "\<forall>i<2. (\<not> playerReady (slots ?q ! i) \<longrightarrow> playerId (slots (readyUpTimeout_fired configTest ?q) ! i) = None)
          \<and> (playerReady (slots ?q ! i) \<longrightarrow>
               playerId (slots (readyUpTimeout_fired configTest ?q) ! i) = playerId (slots ?q ! i))
          \<and> \<not> playerReady (slots (readyUpTimeout_fired configTest ?q) ! i)"
    by simp
  from t2 r0 p0 have a0: "playerId (slots (readyUpTimeout_fired configTest ?q) ! 0) = Some ''p1''"
    "\<not> playerReady (slots (readyUpTimeout_fired configTest ?q) ! 0)"
    by simp_all
  from t2 r1 have a1: "playerId (slots (readyUpTimeout_fired configTest ?q) ! 1) = None"
    "\<not> playerReady (slots (readyUpTimeout_fired configTest ?q) ! 1)"
    by simp_all
  from v e t1 a0 a1 show ?thesis
    by (intro conjI) simp_all
qed

text \<open>
  Three failing calls, instances of C2: joining a taken slot, leaving after having
  confirmed, confirming while the queue is not ready.
\<close>

theorem failed_call_keeps_state_witness:
  "fst (join (Some ''bob'') False 0 ''p2'' (Some 2) (run configTest 0 scenarioE)) = Inl SlotTaken
   \<and> snd (join (Some ''bob'') False 0 ''p2'' (Some 2) (run configTest 0 scenarioE)) = run configTest 0 scenarioE
   \<and> fst (leave ''p1'' (Some 1) (run configTest 0 scenarioConfirmed)) = Inl CannotUnready
   \<and> snd (leave ''p1'' (Some 1) (run configTest 0 scenarioConfirmed)) = run configTest 0 scenarioConfirmed
   \<and> fst (ready (Some ''alice'') ''p1'' (Some 1) (run configTest 0 scenarioE)) = Inl QueueNotReady
   \<and> snd (ready (Some ''alice'') ''p1'' (Some 1) (run configTest 0 scenarioE)) = run configTest 0 scenarioE"
proof -
  have e: "fst (join (Some ''bob'') False 0 ''p2'' (Some 2) (run configTest 0 scenarioE)) = Inl SlotTaken
      \<and> fst (leave ''p1'' (Some 1) (run configTest 0 scenarioConfirmed)) = Inl CannotUnready
      \<and> fst (ready (Some ''alice'') ''p1'' (Some 1) (run configTest 0 scenarioE)) = Inl QueueNotReady"
    unfolding run_scenarioE run_scenarioConfirmed by code_simp
  then have j: "fst (join (Some ''bob'') False 0 ''p2'' (Some 2) (run configTest 0 scenarioE)) = Inl SlotTaken"
    and l: "fst (leave ''p1'' (Some 1) (run configTest 0 scenarioConfirmed)) = Inl CannotUnready"
    and r: "fst (ready (Some ''alice'') ''p1'' (Some 1) (run configTest 0 scenarioE)) = Inl QueueNotReady"
    by simp_all
  from j failed_call_keeps_state [of "Some ''bob''" False 0 "''p2''" "Some 2" "run configTest 0 scenarioE" SlotTaken]
  have j': "snd (join (Some ''bob'') False 0 ''p2'' (Some 2) (run configTest 0 scenarioE)) = run configTest 0 scenarioE"
    by simp
  from l failed_call_keeps_state [of _ _ _ "''p1''" "Some 1" "run configTest 0 scenarioConfirmed" CannotUnready]
  have l': "snd (leave ''p1'' (Some 1) (run configTest 0 scenarioConfirmed)) = run configTest 0 scenarioConfirmed"
    by simp
  from r failed_call_keeps_state [of "Some ''alice''" _ _ "''p1''" "Some 1" "run configTest 0 scenarioE" QueueNotReady]
  have r': "snd (ready (Some ''alice'') ''p1'' (Some 1) (run configTest 0 scenarioE)) = run configTest 0 scenarioE"
    by simp
  from j j' l l' r r' show ?thesis
    by (intro conjI)
qed

text \<open>
  Leaving without a slot, and leaving twice: instances of C9.
\<close>

theorem leave_idempotent_witness:
  "map playerId (slots (run configTest 0 scenarioE)) = [Some ''p1'', None]
   \<and> leave ''p2'' (Some 2) (run configTest 0 scenarioE) = (Inr None, run configTest 0 scenarioE)
   \<and> fst (leave ''p1'' (Some 1) (run configTest 0 scenarioE)) = Inr (Some (soldierSlot 0 None False))
   \<and> fst (leave ''p1'' (Some 1) (snd (leave ''p1'' (Some 1) (run configTest 0 scenarioE)))) = Inr None
   \<and> snd (leave ''p1'' (Some 1) (snd (leave ''p1'' (Some 1) (run configTest 0 scenarioE)))) =
       snd (leave ''p1'' (Some 1) (run configTest 0 scenarioE))"
proof -
  let ?q = "run configTest 0 scenarioE"
  have e: "map playerId (slots ?q) = [Some ''p1'', None]
      \<and> list_all (\<lambda>s. playerId s \<noteq> Some ''p2'') (slots ?q)
      \<and> fst (leave ''p1'' (Some 1) ?q) = Inr (Some (soldierSlot 0 None False))"
    unfolding run_scenarioE by code_simp
  then have pl: "map playerId (slots ?q) = [Some ''p1'', None]"
    and ab: "list_all (\<lambda>s. playerId s \<noteq> Some ''p2'') (slots ?q)"
    and f: "fst (leave ''p1'' (Some 1) ?q) = Inr (Some (soldierSlot 0 None False))"
    by simp_all
  from f have ok: "fst (leave ''p1'' (Some 1) ?q) \<noteq> Inl CannotUnready"
    by simp
  note t1 = leave_idempotent [where p = "''p2''" and q = ?q and sndr = "Some 2"
      and cfg = configTest and rnd = 0 and acts = scenarioE and sndr' = "Some 2"]
  note t2 = leave_idempotent [where p = "''p1''" and q = ?q and sndr = "Some 1"
      and cfg = configTest and rnd = 0 and acts = scenarioE and sndr' = "Some 1"]
  from t1 ab have a: "leave ''p2'' (Some 2) ?q = (Inr None, ?q)"
    by blast
  from t2 ok have b: "fst (leave ''p1'' (Some 1) (snd (leave ''p1'' (Some 1) ?q))) = Inr None"
    by blast
  from t2 have c: "snd (leave ''p1'' (Some 1) (snd (leave ''p1'' (Some 1) ?q))) = snd (leave ''p1'' (Some 1) ?q)"
    by blast
  from pl a f b c show ?thesis
    by (intro conjI)
qed

text \<open>
  Claim C10 as stated fails: the game of \<open>p1\<close> and \<open>p2\<close> has been created and the
  queue is not reset yet, so \<open>p1\<close> still holds slot 0 and has an active game;
  joining slot 0 again fails with \<open>PlayerInActiveGame\<close>, not with \<open>SlotTaken\<close>.
\<close>

theorem join_own_slot_active_game:
  "id_slot (slots (run configTest 0 scenarioLaunch) ! 0) = 0
   \<and> playerId (slots (run configTest 0 scenarioLaunch) ! 0) = Some ''p1''
   \<and> state (run configTest 0 scenarioLaunch) = Launching
   \<and> fst (join (Some ''alice'') True 0 ''p1'' (Some 1) (run configTest 0 scenarioLaunch)) =
       Inl PlayerInActiveGame"
  unfolding run_scenarioLaunch by code_simp

text \<open>Player \<open>p1\<close> joins slot 0 a second time: an instance of the amended C10.\<close>

theorem join_own_slot_witness:
  "findIndex (\<lambda>x. id_slot x = 0) (slots (run configTest 0 scenarioE)) = Some 0
   \<and> playerId (slots (run configTest 0 scenarioE) ! 0) = Some ''p1''
   \<and> fst (join (Some ''alice'') False 0 ''p1'' (Some 1) (run configTest 0 scenarioE)) = Inl SlotTaken
   \<and> snd (join (Some ''alice'') False 0 ''p1'' (Some 1) (run configTest 0 scenarioE)) =
       run configTest 0 scenarioE"
proof -
  let ?q = "run configTest 0 scenarioE"
  have e: "findIndex (\<lambda>x. id_slot x = 0) (slots ?q) = Some 0
      \<and> playerId (slots ?q ! 0) = Some ''p1''"
    unfolding run_scenarioE by code_simp
  then have f: "findIndex (\<lambda>x. id_slot x = 0) (slots ?q) = Some 0"
    and p: "playerId (slots ?q ! 0) = Some ''p1''"
    by simp_all
  have n: "''p1'' \<noteq> []"
    by simp
  from join_own_slot [OF f p n, of "Some ''alice''" False "Some 1"] f p show ?thesis
    by simp
qed

text \<open>
  Claim C5 (a ready-up timer that is no longer the active one is cancelled, or does
  nothing when it fires) does not hold of the code. In \<open>scenarioRefill\<close> the timer
  of the first ready episode (handle 0) is still registered after the launch and the
  reset, although \<^verbatim>\<open>this.timer\<close> holds the timer of the second episode (handle
  1). When timer 0 fires, the queue goes back to \<open>Waiting\<close> and both players of the
  second episode lose their slots.
\<close>

theorem stale_timer_evicts:
  "timer (run configTest 0 scenarioRefill) = Some 1
   \<and> pending (run configTest 0 scenarioRefill) = [ReadyUpTimeoutTask 0, ReadyUpTimeoutTask 1]
   \<and> state (run configTest 0 scenarioRefill) = Ready
   \<and> map playerId (slots (run configTest 0 scenarioRefill)) = [Some ''p3'', Some ''p4'']
   \<and> state (step configTest (run configTest 0 scenarioRefill) (RunPending 0 0)) = Waiting
   \<and> map playerId (slots (step configTest (run configTest 0 scenarioRefill) (RunPending 0 0))) =
       [None, None]"
  unfolding run_scenarioRefill by code_simp

text \<open>
  Claim C7 (the selected map is always one of the configured maps) does not hold of
  the code when a single map is configured: the constructor selects it, and the next
  \<^verbatim>\<open>reset\<close> filters it out of the pool and reads index 0 of the empty pool, so
  the map becomes \<^verbatim>\<open>undefined\<close>.
\<close>

theorem single_map_reset_loses_map:
  "maps configOneMap = [''cp_process'']
   \<and> map_queue (newQueueService configOneMap 0) = Some ''cp_process''
   \<and> map_queue (reset configOneMap 0 (newQueueService configOneMap 0)) = None"
  by code_simp

text \<open>
  A vacant slot can carry the ready flag, and the game is then launched with it: in
  \<open>scenarioOvertaken\<close> player \<open>p1\<close> leaves while the lookup of their \<^verbatim>\<open>ready\<close>
  call is awaited, the rest of the call flags the slot they left, and once \<open>p2\<close>
  has confirmed \<^verbatim>\<open>updateState\<close> counts two ready slots and calls
  \<^verbatim>\<open>gameService.create\<close> with slot 0 vacant.
\<close>

lemma launch_with_vacant_slot:
  "state (run configTest 0 scenarioOvertaken) = Launching
   \<and> slots (run configTest 0 scenarioOvertaken) =
       [soldierSlot 0 None True, soldierSlot 1 (Some ''p2'') True]
   \<and> GameCreate [soldierSlot 0 None True, soldierSlot 1 (Some ''p2'') True] configTest
         (Some ''cp_process'') \<in> set (emitted (run configTest 0 scenarioOvertaken))"
  unfolding run_scenarioOvertaken by code_simp


end
